theory Spec2Isabelle
  imports Main
begin

section \<open>Python strings\<close>

text \<open>
  A Python \<open>str\<close> is a sequence of Unicode code points, and \<open>len\<close> counts code
  points. A character is modelled by its code point, a string by the list of them.
  String literals of the source are written \<open>lit ''...''\<close>.
\<close>

type_synonym uchar = nat
type_synonym ustr = "uchar list"

definition lit :: "string \<Rightarrow> ustr" where
  "lit s = map of_char s"

text \<open>
  The characters for which \<open>str.isspace\<close> holds; they are the ones matched by
  \<open>\s\<close> in a \<open>str\<close> pattern and removed by \<open>str.strip()\<close>.
\<close>

definition is_space :: "uchar \<Rightarrow> bool" where
  "is_space c \<longleftrightarrow>
     (9 \<le> c \<and> c \<le> 13) \<or> (28 \<le> c \<and> c \<le> 32) \<or> c = 133 \<or> c = 160 \<or> c = 5760 \<or>
     (8192 \<le> c \<and> c \<le> 8202) \<or> c = 8232 \<or> c = 8233 \<or> c = 8239 \<or> c = 8287 \<or>
     c = 12288"

definition is_ascii_alnum :: "uchar \<Rightarrow> bool" where
  "is_ascii_alnum c \<longleftrightarrow>
     (97 \<le> c \<and> c \<le> 122) \<or> (65 \<le> c \<and> c \<le> 90) \<or> (48 \<le> c \<and> c \<le> 57)"

text \<open>The character class \<open>[a-zA-Z0-9\s.,\-_()\"@]\<close>.\<close>

definition keep_char :: "uchar \<Rightarrow> bool" where
  "keep_char c \<longleftrightarrow>
     is_ascii_alnum c \<or> is_space c \<or> c \<in> set (lit ''.,-_()@'') \<or> c = 34"

text \<open>
  The character class \<open>[<>:"/\\|?*]\<close>; the double quote is code point 34 and the
  backslash is 92.
\<close>

definition fs_invalid :: "uchar \<Rightarrow> bool" where
  "fs_invalid c \<longleftrightarrow> c \<in> set (lit ''<>:/|?*'') \<or> c = 34 \<or> c = 92"

text \<open>\<open>s.replace(a, b)\<close> for a one-character \<open>a\<close>.\<close>

definition replace_char :: "uchar \<Rightarrow> ustr \<Rightarrow> ustr \<Rightarrow> ustr" where
  "replace_char a b s = concat (map (\<lambda>c. if c = a then b else [c]) s)"

text \<open>
  \<open>re.sub('X+', r, s)\<close> for a class \<open>X\<close> of single characters: scanning from the
  left, every maximal run of characters of the class is replaced by \<open>r\<close>.
\<close>

function sub_runs :: "(uchar \<Rightarrow> bool) \<Rightarrow> ustr \<Rightarrow> ustr \<Rightarrow> ustr" where
  "sub_runs P r [] = []"
| "sub_runs P r (c # cs) =
     (if P c then r @ sub_runs P r (dropWhile P cs) else c # sub_runs P r cs)"
  by pat_completeness auto
termination
  by (relation "measure (\<lambda>(P, r, s). length s)")
     (auto simp: length_dropWhile_le less_Suc_eq_le)

text \<open>\<open>s.strip()\<close> and \<open>s.strip('_')\<close>.\<close>

definition strip_by :: "(uchar \<Rightarrow> bool) \<Rightarrow> ustr \<Rightarrow> ustr" where
  "strip_by P s = rev (dropWhile P (rev (dropWhile P s)))"

definition strip :: "ustr \<Rightarrow> ustr" where
  "strip s = strip_by is_space s"

definition strip_underscore :: "ustr \<Rightarrow> ustr" where
  "strip_underscore s = strip_by (\<lambda>c. c = 95) s"

text \<open>The slice \<open>s[:n]\<close>; a negative \<open>n\<close> counts from the end.\<close>

definition slice_to :: "ustr \<Rightarrow> int \<Rightarrow> ustr" where
  "slice_to s n = (if 0 \<le> n then take (nat n) s else take (nat (int (length s) + n)) s)"

section \<open>Configuration\<close>

text \<open>
  The configuration is the dictionary loaded from the TOML file. A key that is absent
  is \<open>None\<close>; every reader of the source supplies its own default.
  Values are taken to have the types of the default configuration.
\<close>

record config =
  max_length :: "int option"
  append_date :: "bool option"
  date_format :: "ustr option"
  base_dir :: "ustr option"
  collections :: "ustr \<rightharpoonup> ustr"

text \<open>\<open>_default_config\<close>, without the keys that only \<open>format_asset_link\<close> reads.\<close>

definition default_config :: config where
  "default_config =
     \<lparr>max_length = Some 128, append_date = Some False,
      date_format = Some (lit ''%Y%m%dT%H%M%S''), base_dir = Some (lit ''output''),
      collections = Map.empty\<rparr>"

definition get_max_length :: "config \<Rightarrow> int" where
  "get_max_length cfg = (case max_length cfg of None \<Rightarrow> 128 | Some n \<Rightarrow> n)"

definition get_append_date :: "config \<Rightarrow> bool" where
  "get_append_date cfg = (case append_date cfg of None \<Rightarrow> False | Some b \<Rightarrow> b)"

definition get_date_format :: "config \<Rightarrow> ustr" where
  "get_date_format cfg =
     (case date_format cfg of None \<Rightarrow> lit ''%Y%m%dT%H%M%S'' | Some f \<Rightarrow> f)"

definition get_base_dir :: "config \<Rightarrow> ustr" where
  "get_base_dir cfg = (case base_dir cfg of None \<Rightarrow> lit ''output'' | Some d \<Rightarrow> d)"

section \<open>The Namer: sanitize_filename\<close>

text \<open>The cleanup of \<open>sanitize_filename\<close> up to the two strips, before truncation.\<close>

definition normalize_title :: "ustr \<Rightarrow> ustr" where
  "normalize_title title =
     (let t1 = replace_char 13 (lit '' '') (replace_char 10 (lit '' '') title);
          t2 = replace_char 96 [] t1;
          t3 = sub_runs (\<lambda>c. \<not> keep_char c) (lit ''_'') t2;
          t4 = filter (\<lambda>c. \<not> fs_invalid c) t3;
          t5 = sub_runs is_space (lit '' '') t4;
          t6 = sub_runs (\<lambda>c. c = 95) (lit ''_'') t5
      in strip_underscore (strip t6))"

definition sanitize_filename :: "config \<Rightarrow> ustr \<Rightarrow> int \<Rightarrow> ustr" where
  "sanitize_filename cfg title reserve_for_date =
     (let safe_title = normalize_title title;
          available_length = get_max_length cfg - reserve_for_date;
          safe_title =
            (if int (length safe_title) > available_length
             then strip_underscore (strip (slice_to safe_title available_length))
             else safe_title)
      in if safe_title = [] then lit ''untitled'' else safe_title)"

section \<open>What the program takes from its runtime\<close>

text \<open>
  An exception is its type name and its message: the program reports
  \<open>type(e).__name__\<close> and \<open>str(e)\<close>.
\<close>

datatype exn = Exn (exn_type: ustr) (exn_text: ustr)

text \<open>
  A \<open>pathlib\<close> path on a POSIX system: the root (\<open>''\<close>, \<open>'/'\<close> or \<open>'//'\<close>) and the
  components.
\<close>

datatype path = Path (root: ustr) (parts: "ustr list")

text \<open>
  The Unicode tables, the \<open>datetime\<close> module, the clock and the file system are not
  code of the program. They are the fields of a record that every function needing
  them receives:
  \<^item> \<open>nd_other c\<close>: the code point \<open>c\<close>, not ASCII, is a decimal digit (matched by
    \<open>\d\<close>);
  \<^item> \<open>lower_other s\<close>: \<open>s.lower()\<close> for a string with a character that is not ASCII;
  \<^item> \<open>fromisoformat\<close>, \<open>strftime\<close>, \<open>isoformat\<close>: the methods of \<open>datetime\<close>, on a
    type \<open>'dt\<close> of its values; the first two may raise;
  \<^item> \<open>now\<close>: reading the clock, which changes the state \<open>'w\<close> of the world;
  \<^item> \<open>path_exists\<close>, \<open>mkdir\<close> (with \<open>parents=True, exist_ok=True\<close>), \<open>write_text\<close>:
    the file system; the last two return the exception raised, if any, and the new
    state of the world.
\<close>

record ('dt, 'w) runtime =
  nd_other :: "uchar \<Rightarrow> bool"
  lower_other :: "ustr \<Rightarrow> ustr"
  fromisoformat :: "ustr \<Rightarrow> exn + 'dt"
  strftime :: "'dt \<Rightarrow> ustr \<Rightarrow> exn + ustr"
  isoformat :: "'dt \<Rightarrow> ustr"
  now :: "'w \<Rightarrow> 'dt \<times> 'w"
  path_exists :: "'w \<Rightarrow> path \<Rightarrow> bool"
  mkdir :: "'w \<Rightarrow> path \<Rightarrow> exn option \<times> 'w"
  write_text :: "'w \<Rightarrow> path \<Rightarrow> ustr \<Rightarrow> exn option \<times> 'w"

text \<open>The class \<open>\d\<close> of a \<open>str\<close> pattern: the ASCII digits and the other decimal digits.\<close>

definition is_digit :: "('dt, 'w) runtime \<Rightarrow> uchar \<Rightarrow> bool" where
  "is_digit rt c \<longleftrightarrow> (48 \<le> c \<and> c \<le> 57) \<or> (128 \<le> c \<and> nd_other rt c)"

text \<open>\<open>s.lower()\<close>: on an ASCII string, the letters \<open>A-Z\<close> become \<open>a-z\<close>.\<close>

definition lower :: "('dt, 'w) runtime \<Rightarrow> ustr \<Rightarrow> ustr" where
  "lower rt s =
     (if \<forall>c \<in> set s. c < 128
      then map (\<lambda>c. if 65 \<le> c \<and> c \<le> 90 then c + 32 else c) s
      else lower_other rt s)"

section \<open>The Formatter: citation markers and headings\<close>

text \<open>
  One \<open>\[\d+\]\<close> at the start of \<open>s\<close>: the rest of the string after it, if it matches.
  After the longest run of digits the next character must be \<open>]\<close>; a shorter run of
  digits cannot help, since \<open>]\<close> is not a digit.
\<close>

definition match_token :: "('dt, 'w) runtime \<Rightarrow> ustr \<Rightarrow> ustr option" where
  "match_token rt s =
     (case s of
        [] \<Rightarrow> None
      | c # cs \<Rightarrow>
          if c \<noteq> 91 \<or> takeWhile (is_digit rt) cs = [] then None
          else (case dropWhile (is_digit rt) cs of
                  [] \<Rightarrow> None
                | d # r \<Rightarrow> if d = 93 then Some r else None))"

text \<open>The repetition \<open>(\[\d+\])+\<close> after its first token: as many further tokens as match.\<close>

function strip_tokens :: "('dt, 'w) runtime \<Rightarrow> ustr \<Rightarrow> ustr" where
  "strip_tokens rt s = (case match_token rt s of None \<Rightarrow> s | Some r \<Rightarrow> strip_tokens rt r)"
  by pat_completeness auto
termination
proof (relation "measure (\<lambda>(rt, s). length s)")
  show "wf (measure (\<lambda>(rt, s). length s))" by simp
next
  fix rt :: "('dt, 'w) runtime" and s r :: ustr
  assume m: "match_token rt s = Some r"
  then obtain c cs where s: "s = c # cs" by (cases s) (auto simp: match_token_def)
  from m s obtain d where "dropWhile (is_digit rt) cs = d # r"
    by (auto simp: match_token_def split: if_splits list.splits)
  then have "Suc (length r) = length (dropWhile (is_digit rt) cs)" by simp
  also have "\<dots> \<le> length cs" by (rule length_dropWhile_le)
  finally show "((rt, r), (rt, s)) \<in> measure (\<lambda>(rt, s). length s)" using s by simp
qed

text \<open>
  \<open>remove_citation_numbers\<close>, that is \<open>re.sub('(\[\d+\])+', '', text)\<close>: scanning from
  the left, a run of tokens is dropped where it begins, and any other character is kept.
\<close>

function remove_citation_numbers :: "('dt, 'w) runtime \<Rightarrow> ustr \<Rightarrow> ustr" where
  "remove_citation_numbers rt [] = []"
| "remove_citation_numbers rt (c # cs) =
     (case match_token rt (c # cs) of
        None \<Rightarrow> c # remove_citation_numbers rt cs
      | Some r \<Rightarrow> remove_citation_numbers rt (strip_tokens rt r))"
  by pat_completeness auto
termination
proof (relation "measure (\<lambda>(rt, s). length s)")
  show "wf (measure (\<lambda>(rt, s). length s))" by simp
next
  fix rt :: "('dt, 'w) runtime" and c :: uchar and cs :: ustr
  show "((rt, cs), (rt, c # cs)) \<in> measure (\<lambda>(rt, s). length s)" by simp
next
  fix rt :: "('dt, 'w) runtime" and c :: uchar and cs r :: ustr
  assume m: "match_token rt (c # cs) = Some r"
  have le: "length (strip_tokens rt q) \<le> length q" for q
  proof (induction rt q rule: strip_tokens.induct)
    case (1 rt s)
    show ?case
    proof (cases "match_token rt s")
      case None
      then show ?thesis by simp
    next
      case (Some t)
      then obtain a as d where "s = a # as" "dropWhile (is_digit rt) as = d # t"
        by (cases s) (auto simp: match_token_def split: if_splits list.splits)
      then have "length t < length s"
        using length_dropWhile_le[of "is_digit rt" as] by simp
      with 1[OF Some] Some show ?thesis by simp
    qed
  qed
  from m obtain d where "dropWhile (is_digit rt) cs = d # r"
    by (auto simp: match_token_def split: if_splits list.splits)
  then have "length r < length (c # cs)"
    using length_dropWhile_le[of "is_digit rt" cs] by simp
  with le[of r] show "((rt, strip_tokens rt r), (rt, c # cs)) \<in> measure (\<lambda>(rt, s). length s)"
    by simp
qed

text \<open>\<open>s.split(sep)\<close> for a one-character \<open>sep\<close>, and \<open>sep.join(lines)\<close>.\<close>

fun split_on :: "uchar \<Rightarrow> ustr \<Rightarrow> ustr list" where
  "split_on sep [] = [[]]"
| "split_on sep (c # cs) =
     (if c = sep then [] # split_on sep cs
      else (case split_on sep cs of [] \<Rightarrow> [[c]] | l # ls \<Rightarrow> (c # l) # ls))"

fun join :: "ustr \<Rightarrow> ustr list \<Rightarrow> ustr" where
  "join sep [] = []"
| "join sep [l] = l"
| "join sep (l # ls) = l @ sep @ join sep ls"

text \<open>\<open>line.strip().startswith('#')\<close>.\<close>

definition starts_with_hash :: "ustr \<Rightarrow> bool" where
  "starts_with_hash line = (case strip line of [] \<Rightarrow> False | c # _ \<Rightarrow> c = 35)"

text \<open>\<open>re.match('^(#+)\s', line)\<close>: one or more \<open>#\<close> at the start, then a whitespace.\<close>

definition match_heading :: "ustr \<Rightarrow> bool" where
  "match_heading line =
     (case line of
        [] \<Rightarrow> False
      | c # cs \<Rightarrow> c = 35 \<and> (case dropWhile (\<lambda>x. x = 35) cs of [] \<Rightarrow> False | d # _ \<Rightarrow> is_space d))"

text \<open>The body of the loop of \<open>demote_headings\<close>: what is appended for one line.\<close>

definition demote_line :: "('dt, 'w) runtime \<Rightarrow> ustr \<Rightarrow> ustr" where
  "demote_line rt line =
     (if starts_with_hash line then
        (if match_heading line then 35 # remove_citation_numbers rt line else line)
      else line)"

definition demote_headings :: "('dt, 'w) runtime \<Rightarrow> ustr \<Rightarrow> ustr" where
  "demote_headings rt content = join (lit ''\<newline>'') (map (demote_line rt) (split_on 10 content))"

text \<open>
  \<open>re.search('^\s*#\s', answer, re.MULTILINE)\<close>. \<open>h1_here r\<close>: the pattern after \<open>^\<close>
  matches at the start of \<open>r\<close> (the whitespace is matched as far as it goes, since the
  next character of the pattern is not a whitespace). \<open>search_h1 ls s\<close> tries every
  position of \<open>s\<close> from the left; \<open>ls\<close> says that \<open>^\<close> matches at the current position,
  which is so at the start of the text and after every line feed.
\<close>

definition h1_here :: "ustr \<Rightarrow> bool" where
  "h1_here r = (case dropWhile is_space r of c # d # _ \<Rightarrow> c = 35 \<and> is_space d | _ \<Rightarrow> False)"

fun search_h1 :: "bool \<Rightarrow> ustr \<Rightarrow> bool" where
  "search_h1 ls [] = (ls \<and> h1_here [])"
| "search_h1 ls (c # cs) = ((ls \<and> h1_here (c # cs)) \<or> search_h1 (c = 10) cs)"

text \<open>What \<open>create_markdown\<close> does to the answer of an entry (lines 270 to 276).\<close>

definition clean_answer :: "('dt, 'w) runtime \<Rightarrow> ustr \<Rightarrow> ustr" where
  "clean_answer rt answer =
     (if answer \<noteq> [] \<and> search_h1 True answer then demote_headings rt answer
      else remove_citation_numbers rt answer)"

section \<open>The input records and the exporter\<close>

text \<open>
  A conversation of the export is a JSON object, an entry of it another. Their
  string-valued keys are a dictionary from key to value, where an absent key is
  \<open>None\<close>; the values that the program reads are taken to be strings, as they are in
  an export. The list under \<open>entries\<close> is kept apart.
\<close>

type_synonym entry = "ustr \<rightharpoonup> ustr"

record conversation =
  conv_fields :: "ustr \<rightharpoonup> ustr"
  conv_entries :: "entry list option"

text \<open>\<open>d.get(key, default)\<close>.\<close>

definition dget :: "(ustr \<rightharpoonup> ustr) \<Rightarrow> string \<Rightarrow> string \<Rightarrow> ustr" where
  "dget d k dflt = (case d (lit k) of None \<Rightarrow> lit dflt | Some v \<Rightarrow> v)"

record error_entry =
  err_title :: ustr
  err_error :: ustr
  err_timestamp :: ustr

text \<open>The attributes of a \<open>PerplexityExporter\<close>.\<close>

record exporter =
  config :: config
  export_date :: ustr
  errors :: "error_entry list"

text \<open>
  \<open>__init__\<close>, from a configuration already loaded: the export date is read from the
  clock here.
\<close>

definition init ::
  "('dt, 'w) runtime \<Rightarrow> config \<Rightarrow> 'w \<Rightarrow> (exn + exporter) \<times> 'w" where
  "init rt cfg w =
     (let (dt, w1) = now rt w
      in case strftime rt dt (lit ''%Y-%m-%d'') of
           Inl e \<Rightarrow> (Inl e, w1)
         | Inr d \<Rightarrow> (Inr \<lparr>config = cfg, export_date = d, errors = []\<rparr>, w1))"

section \<open>sanitize_text and format_date\<close>

definition sanitize_text :: "ustr \<Rightarrow> bool \<Rightarrow> ustr" where
  "sanitize_text text for_metadata =
     (let t1 = replace_char 13 (lit '' '') (replace_char 10 (lit '' '') text);
          t2 = replace_char 96 [] t1;
          t3 = (if for_metadata then sub_runs (\<lambda>c. \<not> keep_char c) (lit ''_'') t2 else t2);
          t4 = sub_runs is_space (lit '' '') t3;
          t5 = sub_runs (\<lambda>c. c = 95) (lit ''_'') t4
      in strip_underscore (strip t5))"

text \<open>\<open>datetime.fromisoformat(s.replace("Z", "+00:00"))\<close>.\<close>

definition parse_iso :: "('dt, 'w) runtime \<Rightarrow> ustr \<Rightarrow> exn + 'dt" where
  "parse_iso rt s = fromisoformat rt (replace_char 90 (lit ''+00:00'') s)"

text \<open>\<open>format_date\<close>: any exception of the \<open>try\<close> block is answered by the input itself.\<close>

definition format_date :: "('dt, 'w) runtime \<Rightarrow> exporter \<Rightarrow> ustr \<Rightarrow> ustr" where
  "format_date rt self iso_datetime =
     (if iso_datetime = [] then []
      else (case parse_iso rt iso_datetime of
              Inl e \<Rightarrow> iso_datetime
            | Inr dt \<Rightarrow>
                (case strftime rt dt (get_date_format (config self)) of
                   Inl e \<Rightarrow> iso_datetime
                 | Inr s \<Rightarrow> s)))"

section \<open>The Formatter: create_markdown\<close>

text \<open>The heading of an answer (lines 262 to 264 and 278 to 292).\<close>

definition answer_heading :: "('dt, 'w) runtime \<Rightarrow> exporter \<Rightarrow> ustr \<Rightarrow> entry \<Rightarrow> ustr" where
  "answer_heading rt self conv_mode e =
     (let entry_mode = (case e (lit ''mode'') of None \<Rightarrow> conv_mode | Some m \<Rightarrow> m);
          entry_created_at = dget e ''created_at'' [];
          query_status = dget e ''query_status'' ''COMPLETED'';
          parts1 = [lit ''# Answer ('' @ lower rt entry_mode];
          parts2 =
            (if entry_created_at \<noteq> []
             then parts1 @ [lit '' - '' @ format_date rt self entry_created_at]
             else parts1);
          parts3 =
            (if query_status \<noteq> lit ''COMPLETED''
             then parts2 @ [lit '') '' @ query_status]
             else parts2 @ [lit '')''])
      in concat parts3)"

text \<open>The lines that one round of the loop over the entries appends.\<close>

definition entry_lines :: "('dt, 'w) runtime \<Rightarrow> exporter \<Rightarrow> ustr \<Rightarrow> entry \<Rightarrow> ustr list" where
  "entry_lines rt self conv_mode e =
     [lit ''\<newline># Query'',
      dget e ''query'' [],
      lit ''\<newline>'' @ answer_heading rt self conv_mode e,
      clean_answer rt (dget e ''answer'' [])]"

definition create_markdown ::
  "('dt, 'w) runtime \<Rightarrow> exporter \<Rightarrow> conversation \<Rightarrow> exn + ustr" where
  "create_markdown rt self conv =
     (let title = dget (conv_fields conv) ''context_title'' ''Untitled'';
          created_at = dget (conv_fields conv) ''created_at'' [];
          conv_mode = dget (conv_fields conv) ''mode'' ''UNKNOWN'';
          clean_title = sanitize_text title True;
          date_str =
            (if created_at \<noteq> [] then
               (case parse_iso rt created_at of
                  Inl e \<Rightarrow> Inl e
                | Inr dt \<Rightarrow> strftime rt dt (lit ''%Y-%m-%d''))
             else Inr (lit ''Unknown''))
      in case date_str of
           Inl e \<Rightarrow> Inl e
         | Inr d \<Rightarrow>
             Inr (join (lit ''\<newline>'')
                   ([lit ''---'',
                     lit ''Date: '' @ d,
                     lit ''title: '' @ clean_title,
                     lit ''export date: '' @ export_date self,
                     lit ''---'']
                    @ concat (map (entry_lines rt self conv_mode)
                               (case conv_entries conv of None \<Rightarrow> [] | Some es \<Rightarrow> es)))))"

section \<open>Paths\<close>

text \<open>
  \<open>Path(s)\<close> and \<open>p / s\<close> for a string \<open>s\<close>, as \<open>PurePosixPath\<close> has them: a root is
  \<open>/\<close>, or \<open>//\<close> when the string begins with exactly two slashes; the components are
  the pieces between slashes other than the empty one and \<open>.\<close>; a string with a root
  replaces the path it is joined to.
\<close>

definition split_root :: "ustr \<Rightarrow> ustr" where
  "split_root s =
     (case s of
        [] \<Rightarrow> []
      | c # cs \<Rightarrow>
          if c \<noteq> 47 then []
          else (case cs of
                  [] \<Rightarrow> lit ''/''
                | d # ds \<Rightarrow>
                    if d \<noteq> 47 then lit ''/''
                    else (case ds of [] \<Rightarrow> lit ''//'' | x # _ \<Rightarrow> if x = 47 then lit ''/'' else lit ''//'')))"

definition parse_parts :: "ustr \<Rightarrow> ustr list" where
  "parse_parts s = filter (\<lambda>x. x \<noteq> [] \<and> x \<noteq> lit ''.'') (split_on 47 s)"

definition path_of :: "ustr \<Rightarrow> path" where
  "path_of s = Path (split_root s) (parse_parts s)"

definition path_div :: "path \<Rightarrow> ustr \<Rightarrow> path" where
  "path_div p s =
     (if split_root s \<noteq> [] then path_of s else Path (root p) (parts p @ parse_parts s))"

section \<open>The Namer: generate_unique_filename\<close>

text \<open>The timestamp suffix (lines 128 to 133); the clock is read when \<open>created_at\<close> is empty.\<close>

definition date_suffix_of ::
  "('dt, 'w) runtime \<Rightarrow> exporter \<Rightarrow> 'w \<Rightarrow> ustr \<Rightarrow> (exn + ustr) \<times> 'w" where
  "date_suffix_of rt self w created_at =
     (if created_at \<noteq> [] then
        (case parse_iso rt created_at of
           Inl e \<Rightarrow> (Inl e, w)
         | Inr dt \<Rightarrow> (strftime rt dt (get_date_format (config self)), w))
      else (let (dt, w1) = now rt w in (strftime rt dt (get_date_format (config self)), w1)))"

definition generate_unique_filename ::
  "('dt, 'w) runtime \<Rightarrow> exporter \<Rightarrow> 'w \<Rightarrow> ustr \<Rightarrow> ustr \<Rightarrow> path \<Rightarrow> (exn + ustr) \<times> 'w" where
  "generate_unique_filename rt self w title created_at output_dir =
     (case date_suffix_of rt self w created_at of
        (Inl e, w1) \<Rightarrow> (Inl e, w1)
      | (Inr date_suffix, w1) \<Rightarrow>
          if get_append_date (config self) then
            (let base_filename =
                   sanitize_filename (config self) title (int (length date_suffix) + 1)
             in (Inr (base_filename @ lit ''-'' @ date_suffix @ lit ''.md''), w1))
          else
            (let base_filename = sanitize_filename (config self) title 0;
                 filename = base_filename @ lit ''.md'';
                 filepath = path_div output_dir filename
             in if path_exists rt w1 filepath then
                  (let truncate_amount = int (length date_suffix) + 1 + 15;
                       base_filename = sanitize_filename (config self) title truncate_amount
                   in (Inr (base_filename @ lit ''-'' @ date_suffix @ lit ''.md''), w1))
                else (Inr filename, w1)))"

section \<open>The collection resolver\<close>

definition get_collection_name :: "exporter \<Rightarrow> ustr option \<Rightarrow> ustr" where
  "get_collection_name self collection_uuid =
     (case collection_uuid of
        None \<Rightarrow> lit ''uncategorized''
      | Some u \<Rightarrow> (case collections (config self) u of None \<Rightarrow> u | Some mapped_name \<Rightarrow> mapped_name))"

section \<open>The error list and the error log\<close>

definition log_error ::
  "('dt, 'w) runtime \<Rightarrow> exporter \<Rightarrow> 'w \<Rightarrow> ustr \<Rightarrow> ustr \<Rightarrow> exporter \<times> 'w" where
  "log_error rt self w conversation_title error =
     (let (dt, w1) = now rt w
      in (self\<lparr>errors := errors self @
                 [\<lparr>err_title = conversation_title, err_error = error,
                   err_timestamp = isoformat rt dt\<rparr>]\<rparr>, w1))"

text \<open>What \<open>write_error_log\<close> writes to the file.\<close>

definition error_block :: "error_entry \<Rightarrow> ustr" where
  "error_block error_entry =
     lit ''Timestamp: '' @ err_timestamp error_entry @ lit ''\<newline>'' @
     lit ''Conversation: '' @ err_title error_entry @ lit ''\<newline>'' @
     lit ''Error: '' @ err_error error_entry @ lit ''\<newline>'' @
     replicate 80 45 @ lit ''\<newline>\<newline>''"

definition error_log_text :: "error_entry list \<Rightarrow> ustr" where
  "error_log_text es =
     lit ''Perplexity Export Errors\<newline>'' @ replicate 80 61 @ lit ''\<newline>\<newline>'' @
     concat (map error_block es)"

text \<open>
  \<open>write_error_log\<close>: nothing is opened when the list is empty; else the file is
  opened for writing and filled, which is one write to the file system.
\<close>

definition write_error_log ::
  "('dt, 'w) runtime \<Rightarrow> exporter \<Rightarrow> 'w \<Rightarrow> path \<Rightarrow> exn option \<times> 'w" where
  "write_error_log rt self w output_base =
     (if errors self = [] then (None, w)
      else write_text rt w (path_div output_base (lit ''ERRORS.log''))
             (error_log_text (errors self)))"

section \<open>The run\<close>

text \<open>
  The \<open>try\<close> block of the loop of \<open>process_json_export\<close> for one conversation: the
  path written, or the exception that leaves the block, and the world after it.
\<close>

definition export_one ::
  "('dt, 'w) runtime \<Rightarrow> exporter \<Rightarrow> 'w \<Rightarrow> path \<Rightarrow> conversation \<Rightarrow> (exn + path) \<times> 'w" where
  "export_one rt self w output_base conv =
     (let title = dget (conv_fields conv) ''context_title'' ''Untitled'';
          collection_uuid = conv_fields conv (lit ''collection_uuid'');
          collection_name = get_collection_name self collection_uuid;
          collection_dir = path_div output_base collection_name
      in case mkdir rt w collection_dir of
           (Some e, w1) \<Rightarrow> (Inl e, w1)
         | (None, w1) \<Rightarrow>
             (let created_at = dget (conv_fields conv) ''created_at'' []
              in case generate_unique_filename rt self w1 title created_at collection_dir of
                   (Inl e, w2) \<Rightarrow> (Inl e, w2)
                 | (Inr filename, w2) \<Rightarrow>
                     (case create_markdown rt self conv of
                        Inl e \<Rightarrow> (Inl e, w2)
                      | Inr markdown_content \<Rightarrow>
                          (let output_path = path_div collection_dir filename
                           in case write_text rt w2 output_path markdown_content of
                                (Some e, w3) \<Rightarrow> (Inl e, w3)
                              | (None, w3) \<Rightarrow> (Inr output_path, w3)))))"

text \<open>The variables of the loop: the exporter, the world and the two counters.\<close>

record 'w loop_state =
  ls_self :: exporter
  ls_world :: 'w
  successful :: nat
  failed :: nat

text \<open>One round of the loop, with its \<open>except Exception\<close> clause.\<close>

definition process_conv ::
  "('dt, 'w) runtime \<Rightarrow> path \<Rightarrow> 'w loop_state \<Rightarrow> conversation \<Rightarrow> 'w loop_state" where
  "process_conv rt output_base st conv =
     (let title = dget (conv_fields conv) ''context_title'' ''Untitled''
      in case export_one rt (ls_self st) (ls_world st) output_base conv of
           (Inr p, w1) \<Rightarrow> st\<lparr>ls_world := w1, successful := successful st + 1\<rparr>
         | (Inl e, w1) \<Rightarrow>
             (let error_msg = exn_type e @ lit '': '' @ exn_text e;
                  (self1, w2) = log_error rt (ls_self st) w1 title error_msg
              in st\<lparr>ls_self := self1, ls_world := w2, failed := failed st + 1\<rparr>))"

text \<open>
  What \<open>json.load\<close> gives is any JSON value, and three steps of
  \<open>process_json_export\<close> stand outside every \<open>try\<close>: \<open>data.get\<close> (line 336),
  \<open>len(conversations)\<close> (line 337) and \<open>conv.get\<close> (line 344). The shape of the
  value is therefore part of the input:
  \<^item> an element met by the loop is a JSON object, read as a conversation, or a value
    of another Python type, of which the name is kept;
  \<^item> the value under \<open>conversations\<close> is a list of elements, a string (the loop then
    meets its characters), an object (the loop meets its keys), or a value without a
    length (a number, \<open>true\<close>, \<open>false\<close>, \<open>null\<close>), kept by the name of its type;
  \<^item> the whole value is an object, with or without the key \<open>conversations\<close>, or a
    value of another type.
\<close>

datatype item = Record conversation | NotRecord ustr

datatype convs_value =
  ConvList "item list" | ConvString ustr | ConvObject "ustr list" | ConvUnsized ustr

datatype payload = NotObject ustr | Object "convs_value option"

text \<open>
  The \<open>AttributeError\<close> of \<open>x.get\<close> for an \<open>x\<close> of a type without that method, and the
  \<open>TypeError\<close> of \<open>len(x)\<close> for an \<open>x\<close> without a length; 39 is the single quote.
\<close>

definition attribute_error :: "ustr \<Rightarrow> exn" where
  "attribute_error ty =
     Exn (lit ''AttributeError'')
       ([39] @ ty @ [39] @ lit '' object has no attribute '' @ [39] @ lit ''get'' @ [39])"

definition len_error :: "ustr \<Rightarrow> exn" where
  "len_error ty =
     Exn (lit ''TypeError'') (lit ''object of type '' @ [39] @ ty @ [39] @ lit '' has no len()'')"

text \<open>
  Lines 336 and 337: \<open>data.get("conversations", [])\<close> and \<open>len(conversations)\<close>, and
  what the \<open>for\<close> loop will then meet.
\<close>

fun items_of :: "convs_value \<Rightarrow> exn + item list" where
  "items_of (ConvList xs) = Inr xs"
| "items_of (ConvString s) = Inr (map (\<lambda>c. NotRecord (lit ''str'')) s)"
| "items_of (ConvObject ks) = Inr (map (\<lambda>k. NotRecord (lit ''str'')) ks)"
| "items_of (ConvUnsized ty) = Inl (len_error ty)"

fun conversations_of :: "payload \<Rightarrow> exn + item list" where
  "conversations_of (NotObject ty) = Inl (attribute_error ty)"
| "conversations_of (Object None) = Inr []"
| "conversations_of (Object (Some v)) = items_of v"

text \<open>
  The loop: an element that is not an object raises at \<open>conv.get\<close>, outside the
  \<open>try\<close>, and the exception leaves the loop; the state reached is returned with it.
\<close>

fun process_all ::
  "('dt, 'w) runtime \<Rightarrow> path \<Rightarrow> 'w loop_state \<Rightarrow> item list \<Rightarrow> exn option \<times> 'w loop_state" where
  "process_all rt output_base st [] = (None, st)"
| "process_all rt output_base st (NotRecord ty # convs) = (Some (attribute_error ty), st)"
| "process_all rt output_base st (Record conv # convs) =
     process_all rt output_base (process_conv rt output_base st conv) convs"

text \<open>
  How a call ends: it returns, it leaves through \<open>sys.exit\<close> with a status, or an
  exception that nothing catches ends the interpreter, which then exits with status 1.
\<close>

datatype ending = Returned | SysExit int | Uncaught exn


text \<open>
  The input file as \<open>run\<close> and \<open>process_json_export\<close> see it: whether it exists, and
  what opening and \<open>json.load\<close> give, an exception or the value loaded.
\<close>

record json_file =
  file_exists :: bool
  file_load :: "exn + payload"

definition process_json_export ::
  "('dt, 'w) runtime \<Rightarrow> exporter \<Rightarrow> 'w \<Rightarrow> json_file \<Rightarrow> path \<Rightarrow> ending \<times> exporter \<times> 'w" where
  "process_json_export rt self w json_path output_base =
     (case file_load json_path of
        Inl e \<Rightarrow> (SysExit 1, self, w)
      | Inr data \<Rightarrow>
          (case conversations_of data of
             Inl e \<Rightarrow> (Uncaught e, self, w)
           | Inr conversations \<Rightarrow>
               (case process_all rt output_base
                       \<lparr>ls_self = self, ls_world = w, successful = 0, failed = 0\<rparr> conversations of
                  (Some e, st) \<Rightarrow> (Uncaught e, ls_self st, ls_world st)
                | (None, st) \<Rightarrow>
                    if failed st > 0 then
                      (case write_error_log rt (ls_self st) (ls_world st) output_base of
                         (Some e, w1) \<Rightarrow> (Uncaught e, ls_self st, w1)
                       | (None, w1) \<Rightarrow> (Returned, ls_self st, w1))
                    else (Returned, ls_self st, ls_world st))))"

definition run ::
  "('dt, 'w) runtime \<Rightarrow> exporter \<Rightarrow> 'w \<Rightarrow> json_file \<Rightarrow> ending \<times> exporter \<times> 'w" where
  "run rt self w json_path =
     (if \<not> file_exists json_path then (SysExit 1, self, w)
      else (let output_base = path_of (get_base_dir (config self))
            in case mkdir rt w output_base of
                 (Some e, w1) \<Rightarrow> (Uncaught e, self, w1)
               | (None, w1) \<Rightarrow> process_json_export rt self w1 json_path output_base))"

section \<open>Notions in which the claims are stated\<close>

text \<open>
  The characters that \<open>sanitize_filename\<close> can return: of the allow-set, the double
  quote is removed as invalid for a file system, and every whitespace has become the
  space.
\<close>

definition name_char :: "uchar \<Rightarrow> bool" where
  "name_char c \<longleftrightarrow> is_ascii_alnum c \<or> c \<in> set (lit '' .,-_()@'')"

text \<open>
  A citation marker \<open>[ds]\<close> for a string \<open>ds\<close> of one or more decimal digits, and a run
  of markers with nothing between them.
\<close>

definition citation_token :: "ustr \<Rightarrow> ustr" where
  "citation_token ds = [91] @ ds @ [93]"

definition citation_run :: "ustr list \<Rightarrow> ustr" where
  "citation_run dss = concat (map citation_token dss)"

definition digits :: "('dt, 'w) runtime \<Rightarrow> ustr \<Rightarrow> bool" where
  "digits rt ds \<longleftrightarrow> ds \<noteq> [] \<and> list_all (is_digit rt) ds"

text \<open>
  A level-1 heading line as the specification words it: a line that begins with one
  \<open>#\<close> and then a whitespace. \<open>has_h1_line\<close>: the text has such a line.
\<close>

definition h1_line :: "ustr \<Rightarrow> bool" where
  "h1_line l = (case l of c # d # _ \<Rightarrow> c = 35 \<and> is_space d | _ \<Rightarrow> False)"

definition has_h1_line :: "ustr \<Rightarrow> bool" where
  "has_h1_line answer = list_ex h1_line (split_on 10 answer)"





definition is_record :: "item \<Rightarrow> bool" where
  "is_record it = (case it of Record conv \<Rightarrow> True | NotRecord ty \<Rightarrow> False)"

definition records_only :: "item list \<Rightarrow> bool" where
  "records_only items = list_all is_record items"


section \<open>Concrete inputs\<close>

text \<open>
  The theorems below hold for every runtime. To apply them at a concrete input, this
  one is used: no decimal digit besides the ASCII ones, one timestamp that parses,
  two formats that print, a clock that stands still, and a file system that is the
  list of the paths written, where nothing fails.
\<close>

definition toy_runtime :: "(ustr, path list) runtime" where
  "toy_runtime =
     \<lparr>nd_other = (\<lambda>c. False),
      lower_other = (\<lambda>s. s),
      fromisoformat = (\<lambda>s. if s = lit ''2024-01-02T03:04:05+00:00''
                             then Inr (lit ''20240102T030405'')
                             else Inl (Exn (lit ''ValueError'') (lit ''Invalid isoformat string''))),
      strftime = (\<lambda>dt f. if f = lit ''%Y%m%dT%H%M%S'' then Inr dt
                          else if f = lit ''%Y-%m-%d'' then Inr (lit ''2024-01-02'')
                          else Inl (Exn (lit ''ValueError'') (lit ''Invalid format string''))),
      isoformat = (\<lambda>dt. lit ''2024-01-02T03:04:05''),
      now = (\<lambda>w. (lit ''20240102T030405'', w)),
      path_exists = (\<lambda>w p. p \<in> set w),
      mkdir = (\<lambda>w p. (None, w)),
      write_text = (\<lambda>w p c. (None, p # w))\<rparr>"

definition toy_exporter :: exporter where
  "toy_exporter = \<lparr>config = default_config, export_date = lit ''2024-01-02'', errors = []\<rparr>"

text \<open>A dictionary given by its keys and values, both written as literals.\<close>

definition dict_of :: "(string \<times> string) list \<Rightarrow> ustr \<rightharpoonup> ustr" where
  "dict_of kvs = map_of (map (\<lambda>(k, v). (lit k, lit v)) kvs)"

definition toy_mapped_exporter :: exporter where
  "toy_mapped_exporter =
     toy_exporter\<lparr>config := default_config\<lparr>collections := dict_of [(''abc'', ''Work'')]\<rparr>\<rparr>"

definition toy_conv :: conversation where
  "toy_conv = \<lparr>conv_fields = dict_of [(''context_title'', ''T''), (''collection_uuid'', ''xyz'')],
               conv_entries = None\<rparr>"

definition toy_conv_empty_id :: conversation where
  "toy_conv_empty_id =
     \<lparr>conv_fields = dict_of [(''context_title'', ''T''), (''collection_uuid'', [])],
      conv_entries = None\<rparr>"

definition toy_conv_bad_entry_date :: conversation where
  "toy_conv_bad_entry_date =
     \<lparr>conv_fields = dict_of [(''context_title'', ''T'')],
      conv_entries = Some [dict_of [(''created_at'', ''garbage''), (''answer'', ''x'')]]\<rparr>"

definition toy_conv_bad_date :: conversation where
  "toy_conv_bad_date =
     \<lparr>conv_fields = dict_of [(''context_title'', ''T''), (''created_at'', ''garbage'')],
      conv_entries = None\<rparr>"

definition toy_state :: "path list loop_state" where
  "toy_state = \<lparr>ls_self = toy_exporter, ls_world = [], successful = 0, failed = 0\<rparr>"


definition toy_exporter_with_error :: exporter where
  "toy_exporter_with_error =
     toy_exporter\<lparr>errors := [\<lparr>err_title = lit ''T'', err_error = lit ''OSError: disk full'',
                                err_timestamp = lit ''2024-01-02T03:04:05''\<rparr>]\<rparr>"



definition toy_json_bad_shape :: json_file where
  "toy_json_bad_shape =
     \<lparr>file_exists = True,
      file_load = Inr (Object (Some (ConvList
        [Record toy_conv_bad_date, NotRecord (lit ''int''), Record toy_conv])))\<rparr>"


section \<open>Facts about the string operations\<close>

lemma set_sub_runs: "set (sub_runs P r s) \<subseteq> set r \<union> {c \<in> set s. \<not> P c}"
proof (induction P r s rule: sub_runs.induct)
  case (1 P r)
  then show ?case by simp
next
  case (2 P r c cs)
  show ?case
  proof (cases "P c")
    case True
    have "set (dropWhile P cs) \<subseteq> set cs" by (auto dest: set_dropWhileD)
    with True 2(1) show ?thesis by auto
  next
    case False
    with 2(2) show ?thesis by auto
  qed
qed

lemma set_strip_by: "set (strip_by P s) \<subseteq> set s"
  unfolding strip_by_def by (auto dest!: set_dropWhileD)

lemma last_dropWhile_keep: "dropWhile P xs \<noteq> [] \<Longrightarrow> last (dropWhile P xs) = last xs"
  by (induction xs) (auto split: if_splits)

lemma strip_by_hd: "strip_by P s \<noteq> [] \<Longrightarrow> \<not> P (hd (strip_by P s))"
proof -
  assume ne: "strip_by P s \<noteq> []"
  let ?ys = "dropWhile P s"
  have d: "dropWhile P (rev ?ys) \<noteq> []" using ne by (simp add: strip_by_def)
  have y: "?ys \<noteq> []"
  proof
    assume "?ys = []"
    then have "dropWhile P (rev ?ys) = []" by (simp only: rev.simps dropWhile.simps)
    with d show False by contradiction
  qed
  have "hd (strip_by P s) = last (dropWhile P (rev ?ys))"
    using d by (simp add: strip_by_def hd_rev)
  also have "\<dots> = last (rev ?ys)" using d by (rule last_dropWhile_keep)
  also have "\<dots> = hd ?ys" using y by (simp add: last_rev)
  finally show ?thesis using y hd_dropWhile[of P s] by simp
qed

lemma strip_by_last: "strip_by P s \<noteq> [] \<Longrightarrow> \<not> P (last (strip_by P s))"
proof -
  assume ne: "strip_by P s \<noteq> []"
  let ?zs = "dropWhile P (rev (dropWhile P s))"
  have d: "?zs \<noteq> []" using ne by (simp add: strip_by_def)
  have "last (strip_by P s) = hd ?zs" using d by (simp add: strip_by_def last_rev)
  then show ?thesis using d hd_dropWhile[of P "rev (dropWhile P s)"] by simp
qed

lemma normalize_title_chars:
  assumes "c \<in> set (normalize_title title)"
  shows "name_char c"
proof -
  define t2 where
    "t2 = replace_char 96 [] (replace_char 13 (lit '' '') (replace_char 10 (lit '' '') title))"
  define t3 where "t3 = sub_runs (\<lambda>c. \<not> keep_char c) (lit ''_'') t2"
  define t4 where "t4 = filter (\<lambda>c. \<not> fs_invalid c) t3"
  define t5 where "t5 = sub_runs is_space (lit '' '') t4"
  define t6 where "t6 = sub_runs (\<lambda>c. c = 95) (lit ''_'') t5"
  from assms have "c \<in> set (strip_underscore (strip t6))"
    by (simp add: normalize_title_def Let_def t2_def t3_def t4_def t5_def t6_def)
  then have c6: "c \<in> set t6"
    using set_strip_by unfolding strip_underscore_def strip_def by blast
  have k95: "keep_char 95" by (simp add: keep_char_def lit_def)
  have s3: "\<forall>x \<in> set t3. keep_char x"
    using set_sub_runs[of "\<lambda>c. \<not> keep_char c" "lit ''_''" t2] k95
    unfolding t3_def by (auto simp: lit_def)
  then have s4: "\<forall>x \<in> set t4. keep_char x \<and> \<not> fs_invalid x" by (simp add: t4_def)
  have s5: "\<forall>x \<in> set t5. x = 32 \<or> (keep_char x \<and> \<not> fs_invalid x \<and> \<not> is_space x)"
    using set_sub_runs[of is_space "lit '' ''" t4] s4 unfolding t5_def by (auto simp: lit_def)
  have s6: "\<forall>x \<in> set t6. x = 95 \<or> x = 32 \<or> (keep_char x \<and> \<not> fs_invalid x \<and> \<not> is_space x)"
    using set_sub_runs[of "\<lambda>c. c = 95" "lit ''_''" t5] s5 unfolding t6_def by (auto simp: lit_def)
  from s6 c6 have "c = 95 \<or> c = 32 \<or> (keep_char c \<and> \<not> fs_invalid c \<and> \<not> is_space c)" by blast
  then show ?thesis
    by (auto simp: name_char_def keep_char_def fs_invalid_def lit_def)
qed

lemma sanitize_filename_chars:
  assumes "c \<in> set (sanitize_filename cfg title reserve)"
  shows "name_char c"
proof -
  let ?t = "normalize_title title"
  let ?cut = "strip_underscore (strip (slice_to ?t (get_max_length cfg - reserve)))"
  have cut: "set ?cut \<subseteq> set ?t"
  proof -
    have "set (slice_to ?t (get_max_length cfg - reserve)) \<subseteq> set ?t"
      by (auto simp: slice_to_def dest: in_set_takeD)
    then show ?thesis
      using set_strip_by unfolding strip_underscore_def strip_def by blast
  qed
  have u: "\<forall>x \<in> set (lit ''untitled''). name_char x"
    by (simp add: lit_def name_char_def is_ascii_alnum_def)
  from assms have "c \<in> set ?t \<or> c \<in> set ?cut \<or> c \<in> set (lit ''untitled'')"
    by (auto simp: sanitize_filename_def Let_def split: if_splits)
  with cut u normalize_title_chars show ?thesis by blast
qed

lemma sanitize_filename_nonempty: "sanitize_filename cfg title reserve \<noteq> []"
  by (auto simp: sanitize_filename_def Let_def lit_def)

lemma sanitize_filename_underscore:
  "hd (sanitize_filename cfg title reserve) \<noteq> 95 \<and>
   last (sanitize_filename cfg title reserve) \<noteq> 95"
proof -
  have a: "s \<noteq> [] \<Longrightarrow> hd (strip_underscore s) \<noteq> 95 \<and> last (strip_underscore s) \<noteq> 95
             \<or> strip_underscore s = []" for s
    using strip_by_hd[of "\<lambda>c. c = 95" s] strip_by_last[of "\<lambda>c. c = 95" s]
    unfolding strip_underscore_def by blast
  have b: "strip_underscore s \<noteq> [] \<Longrightarrow>
             hd (strip_underscore s) \<noteq> 95 \<and> last (strip_underscore s) \<noteq> 95" for s
    using strip_by_hd[of "\<lambda>c. c = 95" s] strip_by_last[of "\<lambda>c. c = 95" s]
    unfolding strip_underscore_def by blast
  have u: "hd (lit ''untitled'') \<noteq> 95 \<and> last (lit ''untitled'') \<noteq> 95"
    by (simp add: lit_def)
  show ?thesis
    unfolding sanitize_filename_def Let_def normalize_title_def
    using b u by (auto split: if_splits)
qed

lemma sanitize_filename_untitled:
  "normalize_title title = [] \<Longrightarrow> sanitize_filename cfg title reserve = lit ''untitled''"
  by (simp add: sanitize_filename_def Let_def slice_to_def strip_underscore_def strip_def
      strip_by_def)

section \<open>The name made from a title\<close>

text \<open>
  C1. The claim: the name made from a title has only letters, digits, space and
  \<open>. , - _ ( ) @\<close>, begins and ends with neither a space nor an underscore, and is
  \<open>untitled\<close> when nothing is left of the title. The characters, the underscore and
  \<open>untitled\<close> are as the claim says (\<open>sanitize_filename_chars\<close>,
  \<open>sanitize_filename_underscore\<close>, \<open>sanitize_filename_untitled\<close>). The space is not:
  whitespace is stripped before the underscores are, so a space that an underscore
  shielded stays at the end. With the default configuration the title \<open># Heading\<close>
  gives the name \<open> Heading\<close>, which begins with a space.
\<close>

theorem C1_sanitize_filename_leading_space:
  "sanitize_filename default_config (lit ''# Heading'') 0 = lit '' Heading'' \<and>
   hd (sanitize_filename default_config (lit ''# Heading'') 0) = 32"
  by (simp add: sanitize_filename_def normalize_title_def default_config_def lit_def
      replace_char_def keep_char_def is_space_def is_ascii_alnum_def fs_invalid_def
      strip_def strip_underscore_def strip_by_def get_max_length_def)

section \<open>Facts about citation markers\<close>

lemma not_digit_brackets: "\<not> is_digit rt 91" "\<not> is_digit rt 93"
  by (simp_all add: is_digit_def)

lemma match_token_Nil: "match_token rt [] = None"
  by (simp add: match_token_def)

lemma match_token_other: "c \<noteq> 91 \<Longrightarrow> match_token rt (c # cs) = None"
  by (simp add: match_token_def)

lemma match_token_append:
  "a \<noteq> [] \<Longrightarrow> match_token rt (a @ 91 # r) = map_option (\<lambda>q. q @ 91 # r) (match_token rt a)"
proof (cases a)
  case Nil
  assume "a \<noteq> []" with Nil show ?thesis by simp
next
  case (Cons c cs)
  show ?thesis
  proof (cases "\<forall>x \<in> set cs. is_digit rt x")
    case True
    then have f: "takeWhile (is_digit rt) (cs @ 91 # r) = cs"
      "dropWhile (is_digit rt) (cs @ 91 # r) = 91 # r"
      "dropWhile (is_digit rt) cs = []"
      using not_digit_brackets(1)[of rt] by simp_all
    show ?thesis unfolding Cons match_token_def append_Cons list.case f by simp
  next
    case False
    then obtain x where x: "x \<in> set cs" "\<not> is_digit rt x" by blast
    then have f: "takeWhile (is_digit rt) (cs @ 91 # r) = takeWhile (is_digit rt) cs"
      "dropWhile (is_digit rt) (cs @ 91 # r) = dropWhile (is_digit rt) cs @ 91 # r"
      by (simp_all add: takeWhile_append1 dropWhile_append1)
    have "dropWhile (is_digit rt) cs \<noteq> []" using x by (auto simp: dropWhile_eq_Nil_conv)
    then obtain d q where dq: "dropWhile (is_digit rt) cs = d # q"
      by (cases "dropWhile (is_digit rt) cs") auto
    show ?thesis unfolding Cons match_token_def append_Cons list.case f dq by simp
  qed
qed

lemma match_token_strip: "match_token rt (strip_tokens rt q) = None"
proof (induction rt q rule: strip_tokens.induct)
  case (1 rt s)
  then show ?case by (cases "match_token rt s") simp_all
qed

lemma strip_tokens_append:
  "strip_tokens rt (q @ 91 # r) =
     (if strip_tokens rt q = [] then strip_tokens rt (91 # r) else strip_tokens rt q @ 91 # r)"
proof (induction rt q rule: strip_tokens.induct)
  case (1 rt s)
  show ?case
  proof (cases "match_token rt s")
    case None
    then have s: "strip_tokens rt s = s" by simp
    show ?thesis
    proof (cases "s = []")
      case True
      then show ?thesis by (simp add: match_token_Nil)
    next
      case False
      then have "match_token rt (s @ 91 # r) = None" using None by (simp add: match_token_append)
      then have "strip_tokens rt (s @ 91 # r) = s @ 91 # r" by simp
      with s False show ?thesis by simp
    qed
  next
    case (Some t)
    then have ne: "s \<noteq> []" by (auto simp: match_token_Nil)
    then have "match_token rt (s @ 91 # r) = Some (t @ 91 # r)"
      using Some by (simp add: match_token_append)
    then have "strip_tokens rt (s @ 91 # r) = strip_tokens rt (t @ 91 # r)" by simp
    moreover have "strip_tokens rt s = strip_tokens rt t" using Some by simp
    ultimately show ?thesis using 1[OF Some] by simp
  qed
qed

lemma remove_strip_tokens:
  "remove_citation_numbers rt (strip_tokens rt x) = remove_citation_numbers rt x"
proof (cases x)
  case Nil
  then show ?thesis by (simp add: match_token_Nil)
next
  case (Cons c cs)
  then show ?thesis by (cases "match_token rt (c # cs)") simp_all
qed

lemma remove_append_bracket:
  "remove_citation_numbers rt (a @ 91 # r) =
     remove_citation_numbers rt a @ remove_citation_numbers rt (91 # r)"
proof (induction rt a rule: remove_citation_numbers.induct)
  case (1 rt)
  then show ?case by simp
next
  case (2 rt c cs)
  show ?case
  proof (cases "match_token rt (c # cs)")
    case None
    then have "match_token rt (c # cs @ 91 # r) = None"
      using match_token_append[of "c # cs" rt r] by simp
    then have "remove_citation_numbers rt ((c # cs) @ 91 # r) = c # remove_citation_numbers rt (cs @ 91 # r)"
      by simp
    with None 2(1) show ?thesis by simp
  next
    case (Some t)
    then have "match_token rt (c # cs @ 91 # r) = Some (t @ 91 # r)"
      using match_token_append[of "c # cs" rt r] by simp
    then have l: "remove_citation_numbers rt ((c # cs) @ 91 # r) =
        remove_citation_numbers rt (strip_tokens rt (t @ 91 # r))" by simp
    have a: "remove_citation_numbers rt (c # cs) = remove_citation_numbers rt (strip_tokens rt t)"
      using Some by simp
    show ?thesis
    proof (cases "strip_tokens rt t = []")
      case True
      then show ?thesis using l a
        by (simp add: strip_tokens_append remove_strip_tokens del: strip_tokens.simps remove_citation_numbers.simps(2))
    next
      case False
      then show ?thesis using l a 2(2)[OF Some]
        by (simp add: strip_tokens_append del: strip_tokens.simps remove_citation_numbers.simps(2))
    qed
  qed
qed

lemma match_token_token:
  "digits rt ds \<Longrightarrow> match_token rt (citation_token ds @ b) = Some b"
proof -
  assume d: "digits rt ds"
  then have f: "takeWhile (is_digit rt) (ds @ 93 # b) = ds"
    "dropWhile (is_digit rt) (ds @ 93 # b) = 93 # b"
    using not_digit_brackets(2)[of rt] by (simp_all add: digits_def list_all_iff)
  from d have ne: "ds \<noteq> []" by (simp add: digits_def)
  show ?thesis
    unfolding citation_token_def match_token_def append_Cons append_Nil list.case append_assoc f
    using ne by simp
qed

lemma remove_token:
  assumes "digits rt ds"
  shows "remove_citation_numbers rt (a @ citation_token ds @ b) =
         remove_citation_numbers rt a @ remove_citation_numbers rt b"
proof -
  have "remove_citation_numbers rt (citation_token ds @ b) = remove_citation_numbers rt b"
  proof -
    obtain x xs where x: "citation_token ds @ b = x # xs" by (simp add: citation_token_def)
    have "match_token rt (x # xs) = Some b" using match_token_token[OF assms, of b] x by simp
    then have "remove_citation_numbers rt (x # xs) = remove_citation_numbers rt (strip_tokens rt b)"
      by simp
    then show ?thesis using x by (simp only: remove_strip_tokens)
  qed
  moreover have "a @ citation_token ds @ b = a @ 91 # (ds @ 93 # b)"
    "citation_token ds @ b = 91 # (ds @ 93 # b)"
    by (simp_all add: citation_token_def)
  ultimately show ?thesis using remove_append_bracket[of rt a "ds @ 93 # b"] by simp
qed

lemma remove_run:
  assumes "dss \<noteq> []" "list_all (digits rt) dss"
  shows "remove_citation_numbers rt (a @ citation_run dss @ b) =
         remove_citation_numbers rt a @ remove_citation_numbers rt b"
  using assms
proof (induction dss arbitrary: a)
  case Nil
  then show ?case by simp
next
  case (Cons ds dss)
  then have d: "digits rt ds" and r: "list_all (digits rt) dss" by simp_all
  have e: "a @ citation_run (ds # dss) @ b = a @ citation_token ds @ (citation_run dss @ b)"
    by (simp add: citation_run_def)
  show ?case
  proof (cases "dss = []")
    case True
    then show ?thesis using remove_token[OF d, of a b] by (simp add: citation_run_def)
  next
    case False
    have "remove_citation_numbers rt (citation_run dss @ b) = remove_citation_numbers rt b"
      using Cons.IH[OF False r, of "[]"] by simp
    then show ?thesis unfolding e using remove_token[OF d, of a "citation_run dss @ b"] by simp
  qed
qed

lemma remove_no_bracket:
  "\<forall>x \<in> set s. x \<noteq> 91 \<Longrightarrow> remove_citation_numbers rt (s @ y) = s @ remove_citation_numbers rt y"
  by (induction s) (simp_all add: match_token_other)

lemma remove_other_bracket:
  assumes nb: "\<forall>x \<in> set inner. x \<noteq> 91 \<and> x \<noteq> 93"
    and nd: "\<not> digits rt inner"
  shows "remove_citation_numbers rt (a @ [91] @ inner @ [93] @ b) =
         remove_citation_numbers rt a @ [91] @ inner @ [93] @ remove_citation_numbers rt b"
proof -
  have m: "match_token rt (91 # inner @ 93 # b) = None"
  proof (cases "list_all (is_digit rt) inner")
    case True
    with nd have "inner = []" by (simp add: digits_def)
    then show ?thesis using not_digit_brackets(2)[of rt] by (simp add: match_token_def)
  next
    case False
    then obtain x where x: "x \<in> set inner" "\<not> is_digit rt x" by (auto simp: list_all_iff)
    then have f: "takeWhile (is_digit rt) (inner @ 93 # b) = takeWhile (is_digit rt) inner"
      "dropWhile (is_digit rt) (inner @ 93 # b) = dropWhile (is_digit rt) inner @ 93 # b"
      by (simp_all add: takeWhile_append1 dropWhile_append1)
    have "dropWhile (is_digit rt) inner \<noteq> []" using x by (auto simp: dropWhile_eq_Nil_conv)
    then obtain d q where dq: "dropWhile (is_digit rt) inner = d # q"
      by (cases "dropWhile (is_digit rt) inner") auto
    then have "d \<in> set inner" using set_dropWhileD[of d "is_digit rt" inner] by simp
    with nb have "d \<noteq> 93" by blast
    then show ?thesis unfolding match_token_def list.case f dq by simp
  qed
  have "remove_citation_numbers rt (91 # inner @ 93 # b) =
        91 # remove_citation_numbers rt (inner @ 93 # b)" using m by simp
  also have "\<dots> = 91 # inner @ remove_citation_numbers rt (93 # b)"
    using remove_no_bracket[of inner rt "93 # b"] nb by simp
  also have "\<dots> = 91 # inner @ 93 # remove_citation_numbers rt b"
    by (simp add: match_token_other)
  finally show ?thesis using remove_append_bracket[of rt a "inner @ 93 # b"] by simp
qed

lemma remove_no_token:
  "\<forall>i<length s. match_token rt (drop i s) = None \<Longrightarrow> remove_citation_numbers rt s = s"
proof (induction s)
  case Nil
  then show ?case by simp
next
  case (Cons c cs)
  have "match_token rt (drop 0 (c # cs)) = None" using Cons.prems by blast
  then have h: "match_token rt (c # cs) = None" by simp
  have "\<forall>i<length cs. match_token rt (drop i cs) = None"
  proof (intro allI impI)
    fix i assume "i < length cs"
    then have "match_token rt (drop (Suc i) (c # cs)) = None" using Cons.prems by auto
    then show "match_token rt (drop i cs) = None" by simp
  qed
  with Cons.IH h show ?case by simp
qed

lemma remove_example:
  "remove_citation_numbers rt (lit ''result[1][2] more'') = lit ''result more''"
  by (simp add: lit_def match_token_def is_digit_def)

text \<open>
  C4. Removing citation markers deletes a run of adjacent markers \<open>[digits]\<close> as one
  unit, wherever it stands: the text before and the text after are treated as if the run
  were not there. A pair of brackets whose content has no bracket and is not a string
  of digits stays as it is, and so does every text in which no marker begins. The text
  \<open>result[1][2] more\<close> becomes \<open>result more\<close>.
\<close>

theorem C4_remove_citation_numbers:
  "(dss \<noteq> [] \<and> list_all (digits rt) dss \<longrightarrow>
      remove_citation_numbers rt (a @ citation_run dss @ b) =
      remove_citation_numbers rt a @ remove_citation_numbers rt b) \<and>
   ((\<forall>x \<in> set inner. x \<noteq> 91 \<and> x \<noteq> 93) \<and> \<not> digits rt inner \<longrightarrow>
      remove_citation_numbers rt (a @ [91] @ inner @ [93] @ b) =
      remove_citation_numbers rt a @ [91] @ inner @ [93] @ remove_citation_numbers rt b) \<and>
   ((\<forall>i<length s. match_token rt (drop i s) = None) \<longrightarrow> remove_citation_numbers rt s = s) \<and>
   remove_citation_numbers rt (lit ''result[1][2] more'') = lit ''result more''"
  using remove_run[of dss rt a b] remove_other_bracket[of inner rt a b] remove_no_token[of s rt]
    remove_example[of rt]
  by blast

theorem C4_remove_citation_numbers_witness:
  "list_all (digits toy_runtime) [lit ''1'', lit ''2''] \<and>
   remove_citation_numbers toy_runtime (lit ''see '' @ citation_run [lit ''1'', lit ''2''] @ lit '' [x]'') =
     remove_citation_numbers toy_runtime (lit ''see '') @ remove_citation_numbers toy_runtime (lit '' [x]'') \<and>
   list_all (\<lambda>x. x \<noteq> 91 \<and> x \<noteq> 93) (lit ''x'') \<and> \<not> digits toy_runtime (lit ''x'') \<and>
   remove_citation_numbers toy_runtime (lit ''see '' @ [91] @ lit ''x'' @ [93] @ lit '' [x]'') =
     remove_citation_numbers toy_runtime (lit ''see '') @ [91] @ lit ''x'' @ [93]
       @ remove_citation_numbers toy_runtime (lit '' [x]'') \<and>
   list_all (\<lambda>i. match_token toy_runtime (drop i (lit ''ab'')) = None) [0, 1] \<and>
   remove_citation_numbers toy_runtime (lit ''ab'') = lit ''ab''"
proof -
  have h1: "[lit ''1'', lit ''2''] \<noteq> [] \<and> list_all (digits toy_runtime) [lit ''1'', lit ''2'']"
    by (simp add: digits_def is_digit_def lit_def)
  have h2: "(\<forall>x \<in> set (lit ''x''). x \<noteq> 91 \<and> x \<noteq> 93) \<and> \<not> digits toy_runtime (lit ''x'')"
    by (simp add: digits_def is_digit_def lit_def toy_runtime_def)
  have h3: "\<forall>i<length (lit ''ab''). match_token toy_runtime (drop i (lit ''ab'')) = None"
    by (simp add: lit_def match_token_def less_Suc_eq)
  have h4: "list_all (\<lambda>x. x \<noteq> 91 \<and> x \<noteq> 93) (lit ''x'')"
    by (simp add: lit_def)
  have h5: "list_all (\<lambda>i. match_token toy_runtime (drop i (lit ''ab'')) = None) [0, 1]"
    by (simp add: lit_def match_token_def)
  show ?thesis
    using h1 h2 h3 h4 h5
      C4_remove_citation_numbers[of "[lit ''1'', lit ''2'']" toy_runtime "lit ''see ''" "lit '' [x]''"
        "lit ''x''" "lit ''ab''"]
    by blast
qed

section \<open>Evaluating the model\<close>

lemmas string_defs =
  lit_def replace_char_def keep_char_def is_space_def is_ascii_alnum_def fs_invalid_def
  strip_def strip_underscore_def strip_by_def slice_to_def

lemmas config_defs =
  default_config_def get_max_length_def get_append_date_def get_date_format_def get_base_dir_def

lemmas namer_defs =
  sanitize_filename_def normalize_title_def generate_unique_filename_def date_suffix_of_def
  parse_iso_def get_collection_name_def

lemmas path_defs = path_div_def path_of_def parse_parts_def split_root_def

lemmas formatter_defs =
  create_markdown_def entry_lines_def answer_heading_def format_date_def sanitize_text_def
  clean_answer_def demote_headings_def demote_line_def match_heading_def starts_with_hash_def
  h1_here_def match_token_def is_digit_def lower_def dget_def

lemmas toy_defs = toy_runtime_def toy_exporter_def toy_mapped_exporter_def dict_of_def

section \<open>Facts about the run of one conversation\<close>

lemma path_div_empty: "path_div p [] = p"
  by (cases p) (simp add: path_div_def split_root_def parse_parts_def)

lemma export_one_written:
  assumes "export_one rt self w output_base conv = (Inr p, w3)"
  shows "\<exists>w1 w2 filename content.
           mkdir rt w (path_div output_base
               (get_collection_name self (conv_fields conv (lit ''collection_uuid'')))) = (None, w1) \<and>
           generate_unique_filename rt self w1
               (dget (conv_fields conv) ''context_title'' ''Untitled'')
               (dget (conv_fields conv) ''created_at'' [])
               (path_div output_base
                  (get_collection_name self (conv_fields conv (lit ''collection_uuid''))))
             = (Inr filename, w2) \<and>
           create_markdown rt self conv = Inr content \<and>
           p = path_div (path_div output_base
                 (get_collection_name self (conv_fields conv (lit ''collection_uuid'')))) filename \<and>
           write_text rt w2 p content = (None, w3)"
  using assms unfolding export_one_def Let_def
  by (auto split: prod.splits option.splits sum.splits)

text \<open>
  C9. The resolver gives \<open>uncategorized\<close> for an absent collection id, the configured
  name for an id of the table, and any other id unchanged; that id, joined to the output
  directory, is the directory of the file written.
\<close>

theorem C9_get_collection_name:
  "get_collection_name self None = lit ''uncategorized'' \<and>
   (collections (config self) u = Some n \<longrightarrow> get_collection_name self (Some u) = n) \<and>
   (collections (config self) v = None \<longrightarrow> get_collection_name self (Some v) = v) \<and>
   (collections (config self) v = None \<and> conv_fields conv (lit ''collection_uuid'') = Some v \<and>
    export_one rt self w output_base conv = (Inr p, w3) \<longrightarrow>
      (\<exists>filename. p = path_div (path_div output_base v) filename))"
proof -
  have "\<exists>filename. p = path_div (path_div output_base v) filename"
    if "collections (config self) v = None" "conv_fields conv (lit ''collection_uuid'') = Some v"
      "export_one rt self w output_base conv = (Inr p, w3)"
    using export_one_written[OF that(3)] that(1,2) by (auto simp: get_collection_name_def)
  then show ?thesis by (auto simp: get_collection_name_def)
qed

lemma toy_export:
  "export_one toy_runtime toy_mapped_exporter [] (path_of (lit ''output'')) toy_conv =
     (Inr (Path [] [lit ''output'', lit ''xyz'', lit ''T.md'']),
      [Path [] [lit ''output'', lit ''xyz'', lit ''T.md'']])"
  by (simp add: Let_def export_one_def toy_conv_def toy_defs string_defs config_defs namer_defs
      path_defs formatter_defs)

theorem C9_get_collection_name_witness:
  "get_collection_name toy_mapped_exporter None = lit ''uncategorized'' \<and>
   collections (config toy_mapped_exporter) (lit ''abc'') = Some (lit ''Work'') \<and>
   get_collection_name toy_mapped_exporter (Some (lit ''abc'')) = lit ''Work'' \<and>
   collections (config toy_mapped_exporter) (lit ''xyz'') = None \<and>
   get_collection_name toy_mapped_exporter (Some (lit ''xyz'')) = lit ''xyz'' \<and>
   conv_fields toy_conv (lit ''collection_uuid'') = Some (lit ''xyz'') \<and>
   export_one toy_runtime toy_mapped_exporter [] (path_of (lit ''output'')) toy_conv =
     (Inr (Path [] [lit ''output'', lit ''xyz'', lit ''T.md'']),
      [Path [] [lit ''output'', lit ''xyz'', lit ''T.md'']]) \<and>
   (\<exists>filename. Path [] [lit ''output'', lit ''xyz'', lit ''T.md''] =
      path_div (path_div (path_of (lit ''output'')) (lit ''xyz'')) filename)"
proof -
  have h1: "collections (config toy_mapped_exporter) (lit ''abc'') = Some (lit ''Work'')"
    by (simp add: toy_defs config_defs lit_def)
  have h2: "collections (config toy_mapped_exporter) (lit ''xyz'') = None"
    by (simp add: toy_defs config_defs lit_def)
  have h3: "conv_fields toy_conv (lit ''collection_uuid'') = Some (lit ''xyz'')"
    by (simp add: toy_conv_def toy_defs lit_def)
  show ?thesis
    using h1 h2 h3 toy_export
      C9_get_collection_name[of toy_mapped_exporter "lit ''abc''" "lit ''Work''" "lit ''xyz''"
        toy_conv toy_runtime "[]" "path_of (lit ''output'')"
        "Path [] [lit ''output'', lit ''xyz'', lit ''T.md'']"
        "[Path [] [lit ''output'', lit ''xyz'', lit ''T.md'']]"]
    by simp
qed

text \<open>
  C10. A collection id that is present and is the empty string, with no name in the
  table, is not resolved to \<open>uncategorized\<close> but to the empty string; joined to the
  output directory it gives the output directory itself, so that is the directory made
  and the file is written directly in it.
\<close>

theorem C10_empty_collection_id:
  assumes "conv_fields conv (lit ''collection_uuid'') = Some []"
    and "collections (config self) [] = None"
  shows "get_collection_name self (conv_fields conv (lit ''collection_uuid'')) = [] \<and>
         get_collection_name self (conv_fields conv (lit ''collection_uuid'')) \<noteq> lit ''uncategorized'' \<and>
         path_div output_base (get_collection_name self (conv_fields conv (lit ''collection_uuid'')))
           = output_base \<and>
         (export_one rt self w output_base conv = (Inr p, w3) \<longrightarrow>
            (\<exists>w1 w2 filename content.
               mkdir rt w output_base = (None, w1) \<and>
               generate_unique_filename rt self w1
                 (dget (conv_fields conv) ''context_title'' ''Untitled'')
                 (dget (conv_fields conv) ''created_at'' []) output_base = (Inr filename, w2) \<and>
               create_markdown rt self conv = Inr content \<and>
               p = path_div output_base filename \<and>
               write_text rt w2 (path_div output_base filename) content = (None, w3)))"
proof -
  have n: "get_collection_name self (conv_fields conv (lit ''collection_uuid'')) = []"
    using assms by (simp add: get_collection_name_def)
  have u: "lit ''uncategorized'' \<noteq> []" by (simp add: lit_def)
  have d: "path_div output_base [] = output_base" by (rule path_div_empty)
  have "\<exists>w1 w2 filename content.
               mkdir rt w output_base = (None, w1) \<and>
               generate_unique_filename rt self w1
                 (dget (conv_fields conv) ''context_title'' ''Untitled'')
                 (dget (conv_fields conv) ''created_at'' []) output_base = (Inr filename, w2) \<and>
               create_markdown rt self conv = Inr content \<and>
               p = path_div output_base filename \<and>
               write_text rt w2 (path_div output_base filename) content = (None, w3)"
    if "export_one rt self w output_base conv = (Inr p, w3)"
    using export_one_written[OF that] unfolding n d by blast
  then show ?thesis using n u d by auto
qed

lemma toy_export_empty_id:
  "export_one toy_runtime toy_exporter [] (path_of (lit ''output'')) toy_conv_empty_id =
     (Inr (Path [] [lit ''output'', lit ''T.md'']), [Path [] [lit ''output'', lit ''T.md'']])"
  by (simp add: Let_def export_one_def toy_conv_empty_id_def toy_defs string_defs config_defs
      namer_defs path_defs formatter_defs)

theorem C10_empty_collection_id_witness:
  "conv_fields toy_conv_empty_id (lit ''collection_uuid'') = Some [] \<and>
   collections (config toy_exporter) [] = None \<and>
   get_collection_name toy_exporter (conv_fields toy_conv_empty_id (lit ''collection_uuid'')) = [] \<and>
   path_div (path_of (lit ''output''))
     (get_collection_name toy_exporter (conv_fields toy_conv_empty_id (lit ''collection_uuid'')))
     = path_of (lit ''output'') \<and>
   export_one toy_runtime toy_exporter [] (path_of (lit ''output'')) toy_conv_empty_id =
     (Inr (Path [] [lit ''output'', lit ''T.md'']), [Path [] [lit ''output'', lit ''T.md'']]) \<and>
   (\<exists>filename. Path [] [lit ''output'', lit ''T.md''] = path_div (path_of (lit ''output'')) filename)"
proof -
  have h1: "conv_fields toy_conv_empty_id (lit ''collection_uuid'') = Some []"
    by (simp add: toy_conv_empty_id_def toy_defs lit_def)
  have h2: "collections (config toy_exporter) [] = None"
    by (simp add: toy_defs config_defs)
  show ?thesis
    using h1 h2 toy_export_empty_id
      C10_empty_collection_id[OF h1 h2, of "path_of (lit ''output'')" toy_runtime "[]"
        "Path [] [lit ''output'', lit ''T.md'']" "[Path [] [lit ''output'', lit ''T.md'']]"]
    by auto
qed

section \<open>The heading of an answer\<close>

text \<open>
  C5, as it is stated, fails: the status is not read from a key \<open>status\<close> of the entry.
  An entry whose only key is \<open>status\<close>, with the value \<open>FAILED\<close>, gets the heading of
  a completed entry.
\<close>

theorem C5_status_key_counterexample:
  "answer_heading toy_runtime toy_exporter (lit ''WEB'') (dict_of [(''status'', ''FAILED'')])
     = lit ''# Answer (web)'' \<and>
   answer_heading toy_runtime toy_exporter (lit ''WEB'') (dict_of [(''status'', ''FAILED'')])
     \<noteq> lit ''# Answer (web) FAILED''"
  by (simp add: Let_def toy_defs string_defs config_defs formatter_defs)

text \<open>
  C5, amended. The heading of an answer is \<open># Answer (\<close>, the mode in lower case, then
  \<open> - \<close> and the formatted \<open>created_at\<close> of the entry when that is not empty, then
  \<open>)\<close>; when the value under the key \<open>query_status\<close> of the entry (\<open>COMPLETED\<close> when
  the key is absent) is not \<open>COMPLETED\<close>, the heading ends with \<open>) \<close> and that value
  instead. The mode is the one of the entry, or the one of the conversation when the
  entry has none. The heading is the third of the lines of the entry, after a line
  feed.
\<close>

theorem C5_answer_heading:
  "answer_heading rt self conv_mode e =
     lit ''# Answer ('' @
     lower rt (case e (lit ''mode'') of None \<Rightarrow> conv_mode | Some m \<Rightarrow> m) @
     (if dget e ''created_at'' [] \<noteq> []
      then lit '' - '' @ format_date rt self (dget e ''created_at'' []) else []) @
     (if dget e ''query_status'' ''COMPLETED'' \<noteq> lit ''COMPLETED''
      then lit '') '' @ dget e ''query_status'' ''COMPLETED'' else lit '')'') \<and>
   entry_lines rt self conv_mode e ! 2 = lit ''\<newline>'' @ answer_heading rt self conv_mode e \<and>
   answer_heading toy_runtime toy_exporter (lit ''WEB'')
       (dict_of [(''query_status'', ''FAILED''), (''created_at'', ''2024-01-02T03:04:05Z'')])
     = lit ''# Answer (web - 20240102T030405) FAILED'' \<and>
   answer_heading toy_runtime toy_exporter (lit ''WEB'') (dict_of [(''mode'', ''Pro'')])
     = lit ''# Answer (pro)''"
proof -
  have a: "answer_heading rt self conv_mode e =
     lit ''# Answer ('' @
     lower rt (case e (lit ''mode'') of None \<Rightarrow> conv_mode | Some m \<Rightarrow> m) @
     (if dget e ''created_at'' [] \<noteq> []
      then lit '' - '' @ format_date rt self (dget e ''created_at'' []) else []) @
     (if dget e ''query_status'' ''COMPLETED'' \<noteq> lit ''COMPLETED''
      then lit '') '' @ dget e ''query_status'' ''COMPLETED'' else lit '')'')"
    by (simp add: answer_heading_def Let_def)
  have b: "entry_lines rt self conv_mode e ! 2 = lit ''\<newline>'' @ answer_heading rt self conv_mode e"
    by (simp add: entry_lines_def numeral_2_eq_2)
  have c: "answer_heading toy_runtime toy_exporter (lit ''WEB'')
       (dict_of [(''query_status'', ''FAILED''), (''created_at'', ''2024-01-02T03:04:05Z'')])
     = lit ''# Answer (web - 20240102T030405) FAILED''"
    by (simp add: Let_def toy_defs string_defs config_defs formatter_defs parse_iso_def)
  have d: "answer_heading toy_runtime toy_exporter (lit ''WEB'') (dict_of [(''mode'', ''Pro'')])
     = lit ''# Answer (pro)''"
    by (simp add: Let_def toy_defs string_defs config_defs formatter_defs)
  from a b c d show ?thesis by blast
qed

theorem C5_answer_heading_witness:
  "answer_heading toy_runtime toy_exporter (lit ''WEB'')
       (dict_of [(''query_status'', ''PENDING''), (''created_at'', ''2024-01-02T03:04:05Z'')])
     = lit ''# Answer (web - 20240102T030405) PENDING'' \<and>
   entry_lines toy_runtime toy_exporter (lit ''WEB'')
       (dict_of [(''query_status'', ''PENDING''), (''created_at'', ''2024-01-02T03:04:05Z'')]) ! 2
     = lit ''\<newline># Answer (web - 20240102T030405) PENDING''"
  using C5_answer_heading[of toy_runtime toy_exporter "lit ''WEB''"
      "dict_of [(''query_status'', ''PENDING''), (''created_at'', ''2024-01-02T03:04:05Z'')]"]
  by (simp add: toy_defs string_defs config_defs format_date_def parse_iso_def lower_def dget_def)

section \<open>Timestamps that do not parse\<close>

lemma toy_parse_garbage:
  "parse_iso toy_runtime (lit ''garbage'') =
     Inl (Exn (lit ''ValueError'') (lit ''Invalid isoformat string''))"
  by (simp add: parse_iso_def toy_defs string_defs)

text \<open>
  C6, as it is stated, fails for the timestamp of an entry: \<open>format_date\<close> catches the
  exception and answers with its input. A conversation whose only entry has the
  \<open>created_at\<close> value \<open>garbage\<close> is rendered, with \<open>garbage\<close> in the heading, and counts
  as a success.
\<close>

theorem C6_entry_timestamp_counterexample:
  "parse_iso toy_runtime (lit ''garbage'') =
     Inl (Exn (lit ''ValueError'') (lit ''Invalid isoformat string'')) \<and>
   create_markdown toy_runtime toy_exporter toy_conv_bad_entry_date =
     Inr (lit ''---\<newline>Date: Unknown\<newline>title: T\<newline>export date: 2024-01-02\<newline>---\<newline>\<newline># Query\<newline>\<newline>\<newline># Answer (unknown - garbage)\<newline>x'') \<and>
   process_conv toy_runtime (path_of (lit ''output'')) toy_state toy_conv_bad_entry_date =
     \<lparr>ls_self = toy_exporter, ls_world = [Path [] [lit ''output'', lit ''uncategorized'', lit ''T.md'']],
      successful = 1, failed = 0\<rparr>"
  by (simp add: Let_def toy_conv_bad_entry_date_def toy_state_def process_conv_def export_one_def
      toy_defs string_defs config_defs namer_defs path_defs formatter_defs)

lemma generate_unique_filename_malformed:
  assumes "created_at \<noteq> []" "parse_iso rt created_at = Inl e"
  shows "generate_unique_filename rt self w title created_at dir = (Inl e, w)"
  using assms by (simp add: generate_unique_filename_def date_suffix_of_def)

lemma create_markdown_malformed:
  assumes "dget (conv_fields conv) ''created_at'' [] \<noteq> []"
    "parse_iso rt (dget (conv_fields conv) ''created_at'' []) = Inl e"
  shows "create_markdown rt self conv = Inl e"
  using assms by (simp add: create_markdown_def Let_def)

lemma export_one_malformed:
  assumes "dget (conv_fields conv) ''created_at'' [] \<noteq> []"
    "parse_iso rt (dget (conv_fields conv) ''created_at'' []) = Inl e"
  shows "\<exists>e'. export_one rt self w output_base conv =
           (Inl e', snd (mkdir rt w (path_div output_base
               (get_collection_name self (conv_fields conv (lit ''collection_uuid'')))))) \<and>
           (fst (mkdir rt w (path_div output_base
               (get_collection_name self (conv_fields conv (lit ''collection_uuid''))))) = None
            \<longrightarrow> e' = e)"
proof -
  let ?d = "path_div output_base
               (get_collection_name self (conv_fields conv (lit ''collection_uuid'')))"
  obtain r w1 where m: "mkdir rt w ?d = (r, w1)" by (cases "mkdir rt w ?d")
  show ?thesis
  proof (cases r)
    case None
    then show ?thesis
      using m generate_unique_filename_malformed[OF assms, of self w1]
      by (simp add: export_one_def Let_def)
  next
    case (Some e')
    then show ?thesis using m by (simp add: export_one_def Let_def)
  qed
qed

lemma process_conv_failure:
  assumes "export_one rt (ls_self st) (ls_world st) output_base conv = (Inl e, w1)"
  shows "process_conv rt output_base st conv =
           st\<lparr>ls_self := (ls_self st)\<lparr>errors := errors (ls_self st) @
                  [\<lparr>err_title = dget (conv_fields conv) ''context_title'' ''Untitled'',
                    err_error = exn_type e @ lit '': '' @ exn_text e,
                    err_timestamp = isoformat rt (fst (now rt w1))\<rparr>]\<rparr>,
              ls_world := snd (now rt w1), failed := failed st + 1\<rparr>"
  using assms by (simp add: process_conv_def log_error_def Let_def split: prod.splits)

lemma process_conv_success:
  assumes "export_one rt (ls_self st) (ls_world st) output_base conv = (Inr p, w1)"
  shows "process_conv rt output_base st conv = st\<lparr>ls_world := w1, successful := successful st + 1\<rparr>"
  using assms by (simp add: process_conv_def Let_def)

lemma format_date_malformed:
  "parse_iso rt s = Inl e \<Longrightarrow> format_date rt self s = s"
  by (simp add: format_date_def)

lemma create_markdown_no_date:
  "dget (conv_fields conv) ''created_at'' [] = [] \<Longrightarrow> \<exists>text. create_markdown rt self conv = Inr text"
  by (simp add: create_markdown_def Let_def)

text \<open>
  C6, amended. When the \<open>created_at\<close> of a conversation is not empty and does not
  parse, \<open>generate_unique_filename\<close> and \<open>create_markdown\<close> raise the exception of the
  parser; the round of the loop for that conversation writes no file, appends one
  entry with the title to the error list and counts one failure, and the exception
  logged is that of the parser when the directory could be made. When the
  \<open>created_at\<close> of an entry does not parse, nothing is raised: \<open>format_date\<close> returns
  the string as it is, and the heading of the answer shows it. Without a \<open>created_at\<close>
  of the conversation, \<open>create_markdown\<close> returns a text whatever the entries are.
\<close>

theorem C6_malformed_created_at:
  assumes "created_at \<noteq> []" and "parse_iso rt created_at = Inl e"
  shows "generate_unique_filename rt self w title created_at dir = (Inl e, w) \<and>
    (dget (conv_fields conv) ''created_at'' [] = created_at \<longrightarrow>
       create_markdown rt self conv = Inl e \<and>
       (\<exists>e'. process_conv rt output_base st conv =
          st\<lparr>ls_self := (ls_self st)\<lparr>errors := errors (ls_self st) @
                  [\<lparr>err_title = dget (conv_fields conv) ''context_title'' ''Untitled'',
                    err_error = exn_type e' @ lit '': '' @ exn_text e',
                    err_timestamp = isoformat rt (fst (now rt (snd (mkdir rt (ls_world st)
                       (path_div output_base (get_collection_name (ls_self st)
                          (conv_fields conv (lit ''collection_uuid'')))))))) \<rparr>]\<rparr>,
              ls_world := snd (now rt (snd (mkdir rt (ls_world st)
                       (path_div output_base (get_collection_name (ls_self st)
                          (conv_fields conv (lit ''collection_uuid''))))))),
              failed := failed st + 1\<rparr> \<and>
          (fst (mkdir rt (ls_world st)
                       (path_div output_base (get_collection_name (ls_self st)
                          (conv_fields conv (lit ''collection_uuid''))))) = None \<longrightarrow> e' = e))) \<and>
    format_date rt self created_at = created_at \<and>
    (dget en ''created_at'' [] = created_at \<longrightarrow>
       answer_heading rt self conv_mode en =
         lit ''# Answer ('' @
         lower rt (case en (lit ''mode'') of None \<Rightarrow> conv_mode | Some m \<Rightarrow> m) @
         lit '' - '' @ created_at @
         (if dget en ''query_status'' ''COMPLETED'' \<noteq> lit ''COMPLETED''
          then lit '') '' @ dget en ''query_status'' ''COMPLETED'' else lit '')'')) \<and>
    (dget (conv_fields conv) ''created_at'' [] = [] \<longrightarrow>
       (\<exists>text. create_markdown rt self conv = Inr text))"
proof -
  have p: "\<exists>e'. process_conv rt output_base st conv =
          st\<lparr>ls_self := (ls_self st)\<lparr>errors := errors (ls_self st) @
                  [\<lparr>err_title = dget (conv_fields conv) ''context_title'' ''Untitled'',
                    err_error = exn_type e' @ lit '': '' @ exn_text e',
                    err_timestamp = isoformat rt (fst (now rt (snd (mkdir rt (ls_world st)
                       (path_div output_base (get_collection_name (ls_self st)
                          (conv_fields conv (lit ''collection_uuid'')))))))) \<rparr>]\<rparr>,
              ls_world := snd (now rt (snd (mkdir rt (ls_world st)
                       (path_div output_base (get_collection_name (ls_self st)
                          (conv_fields conv (lit ''collection_uuid''))))))),
              failed := failed st + 1\<rparr> \<and>
          (fst (mkdir rt (ls_world st)
                       (path_div output_base (get_collection_name (ls_self st)
                          (conv_fields conv (lit ''collection_uuid''))))) = None \<longrightarrow> e' = e)"
    if c: "dget (conv_fields conv) ''created_at'' [] = created_at"
  proof -
    from assms c have a: "dget (conv_fields conv) ''created_at'' [] \<noteq> []"
      "parse_iso rt (dget (conv_fields conv) ''created_at'' []) = Inl e" by simp_all
    let ?m = "mkdir rt (ls_world st) (path_div output_base
               (get_collection_name (ls_self st) (conv_fields conv (lit ''collection_uuid''))))"
    have "\<exists>e'. export_one rt (ls_self st) (ls_world st) output_base conv = (Inl e', snd ?m) \<and>
           (fst ?m = None \<longrightarrow> e' = e)"
      by (rule export_one_malformed[OF a])
    then obtain e' where e: "export_one rt (ls_self st) (ls_world st) output_base conv =
           (Inl e', snd ?m)"
      and f: "fst ?m = None \<longrightarrow> e' = e" by (elim exE conjE)
    from process_conv_failure[OF e] f show ?thesis by (intro exI[of _ e'] conjI) assumption+
  qed
  have h: "answer_heading rt self conv_mode en =
         lit ''# Answer ('' @
         lower rt (case en (lit ''mode'') of None \<Rightarrow> conv_mode | Some m \<Rightarrow> m) @
         lit '' - '' @ created_at @
         (if dget en ''query_status'' ''COMPLETED'' \<noteq> lit ''COMPLETED''
          then lit '') '' @ dget en ''query_status'' ''COMPLETED'' else lit '')'')"
    if "dget en ''created_at'' [] = created_at"
    using that assms by (simp add: answer_heading_def Let_def format_date_malformed)
  show ?thesis
    using generate_unique_filename_malformed[OF assms] create_markdown_malformed[of conv rt e self]
      assms p h format_date_malformed[OF assms(2)] create_markdown_no_date[of conv rt self]
    by blast
qed

theorem C6_malformed_created_at_witness:
  "lit ''garbage'' \<noteq> [] \<and>
   parse_iso toy_runtime (lit ''garbage'') =
     Inl (Exn (lit ''ValueError'') (lit ''Invalid isoformat string'')) \<and>
   dget (conv_fields toy_conv_bad_date) ''created_at'' [] = lit ''garbage'' \<and>
   generate_unique_filename toy_runtime toy_exporter [] (lit ''T'') (lit ''garbage'')
       (path_of (lit ''output'')) =
     (Inl (Exn (lit ''ValueError'') (lit ''Invalid isoformat string'')), []) \<and>
   create_markdown toy_runtime toy_exporter toy_conv_bad_date =
     Inl (Exn (lit ''ValueError'') (lit ''Invalid isoformat string'')) \<and>
   format_date toy_runtime toy_exporter (lit ''garbage'') = lit ''garbage''"
proof -
  have h1: "lit ''garbage'' \<noteq> []" by (simp add: lit_def)
  have h3: "dget (conv_fields toy_conv_bad_date) ''created_at'' [] = lit ''garbage''"
    by (simp add: toy_conv_bad_date_def dget_def dict_of_def lit_def)
  show ?thesis
    using h1 h3 toy_parse_garbage
      C6_malformed_created_at[OF h1 toy_parse_garbage, of toy_exporter "[]" "lit ''T''"
        "path_of (lit ''output'')" toy_conv_bad_date "path_of (lit ''output'')" toy_state
        "dict_of [(''created_at'', ''garbage'')]" "lit ''WEB''"]
    by blast
qed

section \<open>The answer text\<close>

lemma split_on_nonempty: "split_on sep s \<noteq> []"
  by (induction s) (auto split: list.splits)

lemma not_space_hash: "\<not> is_space 35"
  by (simp add: is_space_def)

lemma search_h1_lines:
  "(ls \<and> h1_line (hd (split_on 10 s))) \<or> list_ex h1_line (tl (split_on 10 s)) \<Longrightarrow> search_h1 ls s"
proof (induction s arbitrary: ls)
  case Nil
  then show ?case by (simp add: h1_line_def)
next
  case (Cons c cs)
  obtain l rest where sp: "split_on 10 cs = l # rest"
    using split_on_nonempty[of 10 cs] by (cases "split_on 10 cs") auto
  show ?case
  proof (cases "c = 10")
    case True
    have "\<not> h1_line []" by (simp add: h1_line_def)
    with True Cons.prems sp have "h1_line l \<or> list_ex h1_line rest" by simp
    then have "search_h1 True cs" using Cons.IH[of True] sp by simp
    with True show ?thesis by simp
  next
    case False
    with Cons.prems sp have pr: "(ls \<and> h1_line (c # l)) \<or> list_ex h1_line rest" by simp
    show ?thesis
    proof (cases "list_ex h1_line rest")
      case True
      then have "search_h1 (c = 10) cs" using Cons.IH[of "c = 10"] sp by simp
      then show ?thesis by simp
    next
      case False
      with pr have ls: ls and h: "h1_line (c # l)" by simp_all
      from h obtain d l' where l: "l = d # l'" and c: "c = 35" and d: "is_space d"
        by (cases l) (auto simp: h1_line_def)
      from sp l obtain cs' where cs: "cs = d # cs'"
        by (cases cs) (auto split: if_splits list.splits)
      have "h1_here (c # cs)" using c d cs not_space_hash by (simp add: h1_here_def)
      with ls show ?thesis by simp
    qed
  qed
qed

lemma has_h1_line_search: "has_h1_line answer \<Longrightarrow> search_h1 True answer \<and> answer \<noteq> []"
proof -
  assume a: "has_h1_line answer"
  obtain l rest where sp: "split_on 10 answer = l # rest"
    using split_on_nonempty[of 10 answer] by (cases "split_on 10 answer") auto
  from a sp have "(True \<and> h1_line (hd (split_on 10 answer))) \<or> list_ex h1_line (tl (split_on 10 answer))"
    by (simp add: has_h1_line_def)
  then have "search_h1 True answer" by (rule search_h1_lines)
  moreover have "answer \<noteq> []" using a by (auto simp: has_h1_line_def h1_line_def)
  ultimately show ?thesis by simp
qed

lemma strip_by_hd_keep: "s \<noteq> [] \<Longrightarrow> \<not> P (hd s) \<Longrightarrow> hd (strip_by P s) = hd s"
proof -
  assume "s \<noteq> []" "\<not> P (hd s)"
  then obtain c cs where s: "s = c # cs" and c: "\<not> P c" by (cases s) auto
  have "dropWhile P (rev cs @ [c]) = dropWhile P (rev cs) @ [c]"
    using c by (induction "rev cs" arbitrary: cs) (auto simp: dropWhile_append3)
  then show ?thesis using s c by (simp add: strip_by_def)
qed

lemma match_heading_starts: "match_heading l \<Longrightarrow> starts_with_hash l"
proof -
  assume m: "match_heading l"
  then obtain cs where l: "l = 35 # cs" by (cases l) (auto simp: match_heading_def)
  have "hd (strip l) = 35" unfolding strip_def
    using strip_by_hd_keep[of l is_space] l not_space_hash by simp
  moreover have "strip l \<noteq> []"
  proof -
    have "dropWhile is_space (rev cs @ [35]) \<noteq> []"
      using not_space_hash by (simp add: dropWhile_append3)
    then show ?thesis using l not_space_hash by (simp add: strip_def strip_by_def)
  qed
  ultimately show ?thesis by (cases "strip l") (auto simp: starts_with_hash_def)
qed

lemma demote_line_eq:
  "demote_line rt l = (if match_heading l then 35 # remove_citation_numbers rt l else l)"
  using match_heading_starts[of l] by (auto simp: demote_line_def)

lemma clean_answer_demotes:
  "has_h1_line answer \<Longrightarrow>
   clean_answer rt answer =
     join (lit ''\<newline>'')
       (map (\<lambda>l. if match_heading l then 35 # remove_citation_numbers rt l else l)
          (split_on 10 answer))"
proof -
  assume "has_h1_line answer"
  then have t: "search_h1 True answer \<and> answer \<noteq> []" by (rule has_h1_line_search)
  have "demote_line rt = (\<lambda>l. if match_heading l then 35 # remove_citation_numbers rt l else l)"
    by (rule ext) (rule demote_line_eq)
  with t show ?thesis by (simp add: clean_answer_def demote_headings_def)
qed

lemma clean_answer_strips:
  "\<not> search_h1 True answer \<Longrightarrow> clean_answer rt answer = remove_citation_numbers rt answer"
  by (simp add: clean_answer_def)

lemma clean_answer_examples:
  "clean_answer rt (lit ''# A\<newline>## B'') = lit ''## A\<newline>### B''"
  "clean_answer rt (lit ''## B'') = lit ''## B''"
  "clean_answer rt (lit ''## B\<newline>see[12] this'') = lit ''## B\<newline>see this''"
  by (simp_all add: string_defs formatter_defs demote_line_eq)

text \<open>
  C3. When a line of the answer begins with \<open>#\<close> and a whitespace, every line that begins
  with one or more \<open>#\<close> and a whitespace gets one more \<open>#\<close> and loses its citation
  markers, and the other lines stay (\<open>clean_answer_demotes\<close>); when the pattern of
  \<open>create_markdown\<close> finds nothing, the markers are removed from the whole text
  (\<open>clean_answer_strips\<close>); the examples of the claim hold (\<open>clean_answer_examples\<close>).
  The claim fails between the two: the pattern of \<open>create_markdown\<close> accepts whitespace
  before the \<open>#\<close>, the pattern of \<open>demote_headings\<close> does not. The answer made of the
  line \<open> # A\<close>, indented by one space, and the line \<open>x[1]\<close> has no line that begins with
  \<open>#\<close>, yet it comes back as it was: no heading demoted, no marker removed.
\<close>

theorem C3_indented_heading_unchanged:
  "clean_answer rt (lit '' # A\<newline>x[1]'') = lit '' # A\<newline>x[1]'' \<and>
   \<not> has_h1_line (lit '' # A\<newline>x[1]'') \<and>
   remove_citation_numbers rt (lit '' # A\<newline>x[1]'') = lit '' # A\<newline>x''"
  by (simp add: string_defs formatter_defs has_h1_line_def h1_line_def)

section \<open>The names of the files\<close>





lemma date_suffix_config:
  "config s1 = config s2 \<Longrightarrow> date_suffix_of rt s1 w created_at = date_suffix_of rt s2 w created_at"
  by (auto simp: date_suffix_of_def Let_def split: sum.splits prod.splits)



















section \<open>What the run changes in the exporter\<close>

lemma format_date_config:
  "config s1 = config s2 \<Longrightarrow> format_date rt s1 x = format_date rt s2 x"
  by (auto simp: format_date_def split: sum.splits)

lemma answer_heading_config:
  "config s1 = config s2 \<Longrightarrow> answer_heading rt s1 m e = answer_heading rt s2 m e"
  by (simp add: answer_heading_def Let_def format_date_config[of s1 s2])

lemma entry_lines_config:
  "config s1 = config s2 \<Longrightarrow> entry_lines rt s1 m = entry_lines rt s2 m"
  by (rule ext) (simp add: entry_lines_def answer_heading_config[of s1 s2])

lemma create_markdown_depends:
  assumes "config s1 = config s2" "export_date s1 = export_date s2"
  shows "create_markdown rt s1 conv = create_markdown rt s2 conv"
  using assms
  by (auto simp: create_markdown_def Let_def entry_lines_config[of s1 s2] split: sum.splits)

lemma process_conv_keeps:
  "config (ls_self (process_conv rt output_base st conv)) = config (ls_self st) \<and>
   export_date (ls_self (process_conv rt output_base st conv)) = export_date (ls_self st)"
  by (auto simp: process_conv_def log_error_def Let_def split: prod.splits sum.splits)

lemma process_all_keeps:
  "config (ls_self (snd (process_all rt output_base st convs))) = config (ls_self st) \<and>
   export_date (ls_self (snd (process_all rt output_base st convs))) = export_date (ls_self st)"
proof (induction rt output_base st convs rule: process_all.induct)
  case (1 rt output_base st)
  then show ?case by simp
next
  case (2 rt output_base st ty convs)
  then show ?case by simp
next
  case (3 rt output_base st conv convs)
  then show ?case using process_conv_keeps[of rt output_base st conv] by simp
qed

lemma init_export_date:
  assumes "init rt cfg w = (Inr self, w1)"
  shows "strftime rt (fst (now rt w)) (lit ''%Y-%m-%d'') = Inr (export_date self) \<and>
         config self = cfg \<and> errors self = [] \<and> w1 = snd (now rt w)"
  using assms by (auto simp: init_def Let_def split: prod.splits sum.splits)

text \<open>
  C8. What \<open>create_markdown\<close> returns depends on the exporter only through its
  configuration and its export date. The export date is read from the clock once, in
  \<open>__init__\<close>, and the loop over the conversations changes neither of the two, whatever
  it does to the world and to the error list: at any point of a run, rendering a
  conversation gives the text that rendering it at the start gives.
\<close>

theorem C8_create_markdown_deterministic:
  "(config s1 = config s2 \<and> export_date s1 = export_date s2 \<longrightarrow>
      create_markdown rt s1 conv = create_markdown rt s2 conv) \<and>
   create_markdown rt (ls_self (snd (process_all rt output_base st convs))) conv =
     create_markdown rt (ls_self st) conv \<and>
   (init rt cfg w = (Inr self, w1) \<longrightarrow>
      strftime rt (fst (now rt w)) (lit ''%Y-%m-%d'') = Inr (export_date self) \<and>
      export_date (ls_self (snd (process_all rt output_base
         \<lparr>ls_self = self, ls_world = w2, successful = 0, failed = 0\<rparr> convs))) = export_date self)"
proof -
  have a: "create_markdown rt (ls_self (snd (process_all rt output_base st convs))) conv =
     create_markdown rt (ls_self st) conv"
    using process_all_keeps[of rt output_base st convs] by (intro create_markdown_depends) simp_all
  have b: "export_date (ls_self (snd (process_all rt output_base
         \<lparr>ls_self = self, ls_world = w2, successful = 0, failed = 0\<rparr> convs))) = export_date self"
    using process_all_keeps[of rt output_base
        "\<lparr>ls_self = self, ls_world = w2, successful = 0, failed = 0\<rparr>" convs] by simp
  show ?thesis
    using a b create_markdown_depends[of s1 s2 rt conv] init_export_date[of rt cfg w self w1]
    by blast
qed

theorem C8_create_markdown_deterministic_witness:
  "config toy_exporter = config toy_exporter_with_error \<and>
   export_date toy_exporter = export_date toy_exporter_with_error \<and>
   create_markdown toy_runtime toy_exporter toy_conv_bad_entry_date =
     create_markdown toy_runtime toy_exporter_with_error toy_conv_bad_entry_date \<and>
   init toy_runtime default_config [] = (Inr toy_exporter, []) \<and>
   strftime toy_runtime (fst (now toy_runtime [])) (lit ''%Y-%m-%d'') = Inr (export_date toy_exporter) \<and>
   export_date (ls_self (snd (process_all toy_runtime (path_of (lit ''output''))
         \<lparr>ls_self = toy_exporter, ls_world = [], successful = 0, failed = 0\<rparr>
         [Record toy_conv_bad_date, Record toy_conv]))) = export_date toy_exporter"
proof -
  have h1: "config toy_exporter = config toy_exporter_with_error \<and>
            export_date toy_exporter = export_date toy_exporter_with_error"
    by (simp add: toy_exporter_with_error_def)
  have h2: "init toy_runtime default_config [] = (Inr toy_exporter, [])"
    by (simp add: init_def toy_defs lit_def)
  show ?thesis
    using h1 h2
      C8_create_markdown_deterministic[where ?s1.0 = toy_exporter
        and ?s2.0 = toy_exporter_with_error and rt = toy_runtime
        and conv = toy_conv_bad_entry_date and cfg = default_config and w = "[]"
        and self = toy_exporter and ?w1.0 = "[]" and ?w2.0 = "[]"
        and output_base = "path_of (lit ''output'')" and convs = "[Record toy_conv_bad_date, Record toy_conv]"]
    by blast
qed

section \<open>Failures of single conversations\<close>





lemma not_record_aborts:
  "records_only pre \<Longrightarrow>
   process_all rt output_base st (pre @ NotRecord ty # post) =
     (Some (attribute_error ty), snd (process_all rt output_base st pre))"
proof (induction pre arbitrary: st)
  case Nil
  then show ?case by simp
next
  case (Cons it pre)
  from Cons.prems obtain conv where it: "it = Record conv" and r: "records_only pre"
    by (cases it) (auto simp: records_only_def is_record_def)
  show ?case using Cons.IH[OF r, of "process_conv rt output_base st conv"] it by simp
qed






lemma toy_bad_shape_run:
  "run toy_runtime toy_exporter [] toy_json_bad_shape =
     (Uncaught (attribute_error (lit ''int'')),
      toy_exporter\<lparr>errors :=
          [\<lparr>err_title = lit ''T'', err_error = lit ''ValueError: Invalid isoformat string'',
            err_timestamp = lit ''2024-01-02T03:04:05''\<rparr>]\<rparr>,
      [])"
  by (simp add: run_def process_json_export_def process_conv_def export_one_def log_error_def
      Let_def toy_json_bad_shape_def toy_conv_bad_date_def toy_defs string_defs config_defs
      namer_defs path_defs formatter_defs)





end
